theory Spec2Isabelle
  imports Main
begin

section \<open>Cube State Engine (class CubeModel)\<close>

text \<open>
  A facelet colour is a JavaScript string (\<open>'W'\<close>, \<open>'Y'\<close>, ...), a face is an
  array of facelets, and the state object has the six keys \<open>up\<close>, \<open>down\<close>,
  \<open>front\<close>, \<open>back\<close>, \<open>left\<close>, \<open>right\<close>.  Arrays are lists; the states the
  engine is meant for have nine entries per face (\<open>wellFormed\<close>).  A read past the
  end of a shorter array gives \<open>undefined\<close> in JavaScript and an unspecified value
  here, so statements that depend on such reads carry \<open>wellFormed\<close>.
\<close>

type_synonym color = string
type_synonym face = "color list"

record CubeState =
  up :: face
  down :: face
  front :: face
  "back" :: face
  left :: face
  right :: face

datatype faceName = FUp | FDown | FFront | FBack | FLeft | FRight

fun getFace :: "faceName \<Rightarrow> CubeState \<Rightarrow> face" where
  "getFace FUp s = up s"
| "getFace FDown s = down s"
| "getFace FFront s = front s"
| "getFace FBack s = back s"
| "getFace FLeft s = left s"
| "getFace FRight s = right s"

fun setFace :: "faceName \<Rightarrow> face \<Rightarrow> CubeState \<Rightarrow> CubeState" where
  "setFace FUp v s = s\<lparr>up := v\<rparr>"
| "setFace FDown v s = s\<lparr>down := v\<rparr>"
| "setFace FFront v s = s\<lparr>front := v\<rparr>"
| "setFace FBack v s = s\<lparr>back := v\<rparr>"
| "setFace FLeft v s = s\<lparr>left := v\<rparr>"
| "setFace FRight v s = s\<lparr>right := v\<rparr>"

text \<open>\<open>s[f][i]\<close> read, and the assignment \<open>s[f][i] = v\<close>.\<close>

definition facelet :: "faceName \<Rightarrow> nat \<Rightarrow> CubeState \<Rightarrow> color" where
  "facelet f i s = getFace f s ! i"

definition assign :: "faceName \<Rightarrow> nat \<Rightarrow> color \<Rightarrow> CubeState \<Rightarrow> CubeState" where
  "assign f i v s = setFace f ((getFace f s)[i := v]) s"

definition wellFormed :: "CubeState \<Rightarrow> bool" where
  "wellFormed s \<longleftrightarrow>
     length (up s) = 9 \<and> length (down s) = 9 \<and> length (front s) = 9 \<and>
     length (back s) = 9 \<and> length (left s) = 9 \<and> length (right s) = 9"

text \<open>\<open>solvedState\<close> of the constructor; \<open>reset()\<close> installs a copy of it.\<close>

definition solvedState :: CubeState where
  "solvedState =
     \<lparr>up = replicate 9 ''W'', down = replicate 9 ''Y'', front = replicate 9 ''R'',
      back = replicate 9 ''O'', left = replicate 9 ''G'', right = replicate 9 ''B''\<rparr>"

text \<open>
  \<open>_rotateFace(face, clockwise)\<close>: \<open>faceState[i] = temp[mapping[i]]\<close> for
  \<open>i = 0..8\<close>, where \<open>temp\<close> is a copy of the face taken before the loop.  Entries
  past index 8 (there are none in a well-formed state) are not touched.
\<close>

definition mapping_cw :: "nat list" where
  "mapping_cw = [2, 5, 8, 1, 4, 7, 0, 3, 6]"

definition mapping_ccw :: "nat list" where
  "mapping_ccw = [6, 3, 0, 7, 4, 1, 8, 5, 2]"

definition rotateArray :: "bool \<Rightarrow> face \<Rightarrow> face" where
  "rotateArray clockwise temp =
     map (\<lambda>j. temp ! j) (if clockwise then mapping_cw else mapping_ccw) @ drop 9 temp"

definition rotateFace :: "faceName \<Rightarrow> bool \<Rightarrow> CubeState \<Rightarrow> CubeState" where
  "rotateFace f clockwise s = setFace f (rotateArray clockwise (getFace f s)) s"

text \<open>
  \<open>_performMove(face)\<close>, one case of the \<open>switch\<close> per definition, every
  assignment in the order of the source.  The destructuring assignments of the
  \<open>U\<close> and \<open>D\<close> cases evaluate their right-hand side array first.
\<close>

definition performF :: "CubeState \<Rightarrow> CubeState" where
  "performF s0 =
     (let s = rotateFace FFront True s0;
          temp = [facelet FUp 6 s, facelet FUp 7 s, facelet FUp 8 s];
          s = assign FUp 6 (facelet FLeft 8 s) s;
          s = assign FUp 7 (facelet FLeft 5 s) s;
          s = assign FUp 8 (facelet FLeft 2 s) s;
          s = assign FLeft 2 (facelet FDown 0 s) s;
          s = assign FLeft 5 (facelet FDown 1 s) s;
          s = assign FLeft 8 (facelet FDown 2 s) s;
          s = assign FDown 0 (facelet FRight 6 s) s;
          s = assign FDown 1 (facelet FRight 3 s) s;
          s = assign FDown 2 (facelet FRight 0 s) s;
          s = assign FRight 0 (temp ! 0) s;
          s = assign FRight 3 (temp ! 1) s;
          s = assign FRight 6 (temp ! 2) s
      in s)"

definition performB :: "CubeState \<Rightarrow> CubeState" where
  "performB s0 =
     (let s = rotateFace FBack True s0;
          temp = [facelet FUp 0 s, facelet FUp 1 s, facelet FUp 2 s];
          s = assign FUp 0 (facelet FRight 2 s) s;
          s = assign FUp 1 (facelet FRight 5 s) s;
          s = assign FUp 2 (facelet FRight 8 s) s;
          s = assign FRight 2 (facelet FDown 8 s) s;
          s = assign FRight 5 (facelet FDown 7 s) s;
          s = assign FRight 8 (facelet FDown 6 s) s;
          s = assign FDown 6 (facelet FLeft 0 s) s;
          s = assign FDown 7 (facelet FLeft 3 s) s;
          s = assign FDown 8 (facelet FLeft 6 s) s;
          s = assign FLeft 0 (temp ! 2) s;
          s = assign FLeft 3 (temp ! 1) s;
          s = assign FLeft 6 (temp ! 0) s
      in s)"

definition performU :: "CubeState \<Rightarrow> CubeState" where
  "performU s0 =
     (let s = rotateFace FUp True s0;
          temp = [facelet FFront 0 s, facelet FFront 1 s, facelet FFront 2 s];
          v = [facelet FRight 0 s, facelet FRight 1 s, facelet FRight 2 s];
          s = assign FFront 0 (v ! 0) s;
          s = assign FFront 1 (v ! 1) s;
          s = assign FFront 2 (v ! 2) s;
          v = [facelet FBack 0 s, facelet FBack 1 s, facelet FBack 2 s];
          s = assign FRight 0 (v ! 0) s;
          s = assign FRight 1 (v ! 1) s;
          s = assign FRight 2 (v ! 2) s;
          v = [facelet FLeft 0 s, facelet FLeft 1 s, facelet FLeft 2 s];
          s = assign FBack 0 (v ! 0) s;
          s = assign FBack 1 (v ! 1) s;
          s = assign FBack 2 (v ! 2) s;
          s = assign FLeft 0 (temp ! 0) s;
          s = assign FLeft 1 (temp ! 1) s;
          s = assign FLeft 2 (temp ! 2) s
      in s)"

definition performD :: "CubeState \<Rightarrow> CubeState" where
  "performD s0 =
     (let s = rotateFace FDown True s0;
          temp = [facelet FFront 6 s, facelet FFront 7 s, facelet FFront 8 s];
          v = [facelet FLeft 6 s, facelet FLeft 7 s, facelet FLeft 8 s];
          s = assign FFront 6 (v ! 0) s;
          s = assign FFront 7 (v ! 1) s;
          s = assign FFront 8 (v ! 2) s;
          v = [facelet FBack 6 s, facelet FBack 7 s, facelet FBack 8 s];
          s = assign FLeft 6 (v ! 0) s;
          s = assign FLeft 7 (v ! 1) s;
          s = assign FLeft 8 (v ! 2) s;
          v = [facelet FRight 6 s, facelet FRight 7 s, facelet FRight 8 s];
          s = assign FBack 6 (v ! 0) s;
          s = assign FBack 7 (v ! 1) s;
          s = assign FBack 8 (v ! 2) s;
          s = assign FRight 6 (temp ! 0) s;
          s = assign FRight 7 (temp ! 1) s;
          s = assign FRight 8 (temp ! 2) s
      in s)"

definition performL :: "CubeState \<Rightarrow> CubeState" where
  "performL s0 =
     (let s = rotateFace FLeft True s0;
          temp = [facelet FUp 0 s, facelet FUp 3 s, facelet FUp 6 s];
          s = assign FUp 0 (facelet FBack 8 s) s;
          s = assign FUp 3 (facelet FBack 5 s) s;
          s = assign FUp 6 (facelet FBack 2 s) s;
          s = assign FBack 2 (facelet FDown 6 s) s;
          s = assign FBack 5 (facelet FDown 3 s) s;
          s = assign FBack 8 (facelet FDown 0 s) s;
          s = assign FDown 0 (facelet FFront 0 s) s;
          s = assign FDown 3 (facelet FFront 3 s) s;
          s = assign FDown 6 (facelet FFront 6 s) s;
          s = assign FFront 0 (temp ! 0) s;
          s = assign FFront 3 (temp ! 1) s;
          s = assign FFront 6 (temp ! 2) s
      in s)"

definition performR :: "CubeState \<Rightarrow> CubeState" where
  "performR s0 =
     (let s = rotateFace FRight True s0;
          temp = [facelet FUp 2 s, facelet FUp 5 s, facelet FUp 8 s];
          s = assign FUp 2 (facelet FFront 2 s) s;
          s = assign FUp 5 (facelet FFront 5 s) s;
          s = assign FUp 8 (facelet FFront 8 s) s;
          s = assign FFront 2 (facelet FDown 2 s) s;
          s = assign FFront 5 (facelet FDown 5 s) s;
          s = assign FFront 8 (facelet FDown 8 s) s;
          s = assign FDown 2 (facelet FBack 6 s) s;
          s = assign FDown 5 (facelet FBack 3 s) s;
          s = assign FDown 8 (facelet FBack 0 s) s;
          s = assign FBack 0 (temp ! 2) s;
          s = assign FBack 3 (temp ! 1) s;
          s = assign FBack 6 (temp ! 0) s
      in s)"

text \<open>The \<open>switch\<close> has no \<open>default\<close>: any other face string changes nothing.\<close>

definition performMove :: "char \<Rightarrow> CubeState \<Rightarrow> CubeState" where
  "performMove f s =
     (if f = CHR ''F'' then performF s
      else if f = CHR ''B'' then performB s
      else if f = CHR ''U'' then performU s
      else if f = CHR ''D'' then performD s
      else if f = CHR ''L'' then performL s
      else if f = CHR ''R'' then performR s
      else s)"

text \<open>\<open>_move(face, prime, double)\<close>: \<open>_performMove\<close> repeated \<open>cycles\<close> times.\<close>

definition cycles :: "bool \<Rightarrow> bool \<Rightarrow> nat" where
  "cycles prime double = (if double then 2 else (if prime then 3 else 1))"

definition move :: "char \<Rightarrow> bool \<Rightarrow> bool \<Rightarrow> CubeState \<Rightarrow> CubeState" where
  "move f prime double s = (performMove f ^^ cycles prime double) s"

text \<open>
  \<open>algorithm.split(' ').filter(m => m)\<close>: the pieces between single spaces, the
  empty ones dropped.
\<close>

fun split_space :: "string \<Rightarrow> string list" where
  "split_space [] = [[]]"
| "split_space (c # cs) =
     (if c = CHR '' '' then [] # split_space cs
      else (case split_space cs of
              [] \<Rightarrow> [[c]]
            | t # ts \<Rightarrow> (c # t) # ts))"

definition tokens :: "string \<Rightarrow> string list" where
  "tokens algorithm = filter (\<lambda>m. m \<noteq> []) (split_space algorithm)"

text \<open>
  \<open>move[0].toUpperCase()\<close>.  The letters \<open>a\<close>..\<open>z\<close> (codes 97..122) go to
  \<open>A\<close>..\<open>Z\<close>; every
  other character of the 8-bit \<open>char\<close> type is left as it is (JavaScript maps a few
  non-ASCII characters elsewhere, never to one of the six face letters).
\<close>

definition toUpperCase :: "char \<Rightarrow> char" where
  "toUpperCase c =
     (let n = (of_char c :: nat)
      in if 97 \<le> n \<and> n \<le> 122 then char_of (n - 32) else c)"

definition includesChar :: "string \<Rightarrow> char \<Rightarrow> bool" where
  "includesChar m c \<longleftrightarrow> c \<in> set m"

text \<open>
  The body of the \<open>forEach\<close> in \<open>executeAlgorithm\<close>.  A token is never empty
  after the filter, so \<open>move[0]\<close> is its first character.
\<close>

definition applyToken :: "string \<Rightarrow> CubeState \<Rightarrow> CubeState" where
  "applyToken m s =
     move (toUpperCase (hd m)) (includesChar m (CHR 0x27)) (includesChar m CHR ''2'') s"

definition executeAlgorithm :: "string \<Rightarrow> CubeState \<Rightarrow> CubeState" where
  "executeAlgorithm algorithm s = foldl (\<lambda>s m. applyToken m s) s (tokens algorithm)"

section \<open>Layer Solver (class CubeSolverJS)\<close>

text \<open>
  The solver object: its private cube and the accumulating solution log.  A loop
  with a counter is a function recursive on the remaining count; a \<open>while\<close> loop
  without one is a partial function into \<open>option\<close>, where \<open>None\<close> is a run that
  never leaves the loop.
\<close>

record solver =
  cube :: CubeState
  solution :: "string list"

definition newSolver :: "CubeState \<Rightarrow> solver" where
  "newSolver cubeState = \<lparr>cube = cubeState, solution = []\<rparr>"

definition execute :: "string \<Rightarrow> solver \<Rightarrow> solver" where
  "execute moves st =
     st\<lparr>cube := executeAlgorithm moves (cube st), solution := solution st @ tokens moves\<rparr>"

text \<open>\<open>this.cube.state[f][i]\<close>.\<close>

definition sticker :: "faceName \<Rightarrow> nat \<Rightarrow> solver \<Rightarrow> color" where
  "sticker f i st = facelet f i (cube st)"

definition allFaces :: "faceName list" where
  "allFaces = [FUp, FDown, FFront, FBack, FLeft, FRight]"

definition isSolved :: "solver \<Rightarrow> bool" where
  "isSolved st =
     list_all (\<lambda>f. list_all (\<lambda>c. c = sticker f 4 st) (getFace f (cube st))) allFaces"

definition white :: color where
  "white = ''W''"

definition yellow :: color where
  "yellow = ''Y''"

text \<open>
  The algorithm strings of the phases.  A string literal cannot end in an
  apostrophe, so a final \<open>'\<close> is appended as \<open>CHR 0x27\<close>.
\<close>

definition algInsertCorner :: string where
  "algInsertCorner = ''R' D' R D''"

definition algInsertRight :: string where
  "algInsertRight = ''U R U' R' U' F' U F''"

definition algInsertLeft :: string where
  "algInsertLeft = ''U' L' U L U F U' F'' @ [CHR 0x27]"

definition algYellowCross :: string where
  "algYellowCross = ''F R U R' U' F'' @ [CHR 0x27]"

definition algYellowEdges :: string where
  "algYellowEdges = ''R U R' U R U2 R'' @ [CHR 0x27]"

definition algYellowCorners :: string where
  "algYellowCorners = ''U R U' L' U R' U' L''"

subsection \<open>solveWhiteCross\<close>

definition edges :: "((faceName \<times> nat) \<times> (faceName \<times> nat)) list" where
  "edges =
     [((FUp, 1), (FBack, 1)), ((FUp, 3), (FLeft, 1)), ((FUp, 5), (FRight, 1)),
      ((FUp, 7), (FFront, 1)), ((FDown, 1), (FFront, 7)), ((FDown, 3), (FLeft, 7)),
      ((FDown, 5), (FRight, 7)), ((FDown, 7), (FBack, 7)), ((FFront, 3), (FLeft, 5)),
      ((FFront, 5), (FRight, 3)), ((FBack, 3), (FRight, 5)), ((FBack, 5), (FLeft, 3))]"

definition crossEdgeFound :: "color \<Rightarrow> solver \<Rightarrow> bool" where
  "crossEdgeFound color st =
     list_ex (\<lambda>(pos, pair).
        let color1 = sticker (fst pos) (snd pos) st;
            color2 = sticker (fst pair) (snd pair) st
        in (color1 = white \<and> color2 = color) \<or> (color2 = white \<and> color1 = color)) edges"

text \<open>\<open>while (!found && attempts < 20)\<close>, called with 20 attempts left.\<close>

fun crossSearch :: "nat \<Rightarrow> color \<Rightarrow> solver \<Rightarrow> solver" where
  "crossSearch 0 color st = st"
| "crossSearch (Suc n) color st =
     (if crossEdgeFound color st then st else crossSearch n color (execute ''U'' st))"

definition solveWhiteCross :: "solver \<Rightarrow> solver" where
  "solveWhiteCross st =
     foldl (\<lambda>st color. execute ''F2'' (crossSearch 20 color st)) st [''R'', ''B'', ''O'', ''G'']"

subsection \<open>solveWhiteCorners\<close>

partial_function (option) rotateToSlot :: "color \<Rightarrow> color \<Rightarrow> solver \<Rightarrow> solver option" where
  "rotateToSlot frontColor leftColor st =
     (if sticker FFront 4 st \<noteq> frontColor \<or> sticker FRight 4 st \<noteq> leftColor
      then rotateToSlot frontColor leftColor (execute ''y'' st)
      else Some st)"

text \<open>The safety loop \<open>for (let i = 0; i < 5; i++)\<close>.\<close>

fun cornerSearch :: "nat \<Rightarrow> color \<Rightarrow> color \<Rightarrow> solver \<Rightarrow> solver" where
  "cornerSearch 0 frontColor leftColor st = st"
| "cornerSearch (Suc n) frontColor leftColor st =
     (let u_colors = [sticker FUp 8 st, sticker FFront 2 st, sticker FRight 0 st]
      in if white \<in> set u_colors \<and> frontColor \<in> set u_colors \<and> leftColor \<in> set u_colors
         then st
         else cornerSearch n frontColor leftColor (execute ''U'' st))"

partial_function (option) insertCorner :: "color \<Rightarrow> solver \<Rightarrow> solver option" where
  "insertCorner frontColor st =
     (if sticker FDown 2 st \<noteq> white \<or> sticker FFront 8 st \<noteq> frontColor
      then insertCorner frontColor (execute algInsertCorner st)
      else Some st)"

definition solveCorner :: "color \<times> color \<Rightarrow> solver \<Rightarrow> solver option" where
  "solveCorner c st =
     (case c of (frontColor, leftColor) \<Rightarrow>
        Option.bind (rotateToSlot frontColor leftColor st)
          (\<lambda>st. insertCorner frontColor (cornerSearch 5 frontColor leftColor st)))"

fun forEachCorner :: "(color \<times> color) list \<Rightarrow> solver \<Rightarrow> solver option" where
  "forEachCorner [] st = Some st"
| "forEachCorner (c # cs) st = Option.bind (solveCorner c st) (forEachCorner cs)"

definition cornersToSolve :: "(color \<times> color) list" where
  "cornersToSolve = [(''R'', ''G''), (''B'', ''R''), (''O'', ''B''), (''G'', ''O'')]"

definition solveWhiteCorners :: "solver \<Rightarrow> solver option" where
  "solveWhiteCorners st = forEachCorner cornersToSolve st"

subsection \<open>solveMiddleLayer\<close>

definition middleEdges :: "(faceName \<times> nat) list" where
  "middleEdges =
     [(FFront, 3), (FFront, 5), (FRight, 3), (FRight, 5),
      (FBack, 3), (FBack, 5), (FLeft, 3), (FLeft, 5)]"

definition middleSolved :: "solver \<Rightarrow> bool" where
  "middleSolved st = list_all (\<lambda>(f, idx). sticker f idx st = sticker f 4 st) middleEdges"

text \<open>\<open>for (let j = 0; j < 4; j++)\<close>; the result is \<open>edgeFound\<close> and the solver.\<close>

fun findTopEdge :: "nat \<Rightarrow> solver \<Rightarrow> bool \<times> solver" where
  "findTopEdge 0 st = (False, st)"
| "findTopEdge (Suc n) st =
     (if sticker FUp 7 st \<noteq> yellow \<and> sticker FFront 1 st \<noteq> yellow then (True, st)
      else findTopEdge n (execute ''U'' st))"

partial_function (option) alignFrontEdge :: "solver \<Rightarrow> solver option" where
  "alignFrontEdge st =
     (if sticker FFront 1 st \<noteq> sticker FFront 4 st then alignFrontEdge (execute ''U'' st)
      else Some st)"

definition insertEdge :: "solver \<Rightarrow> solver" where
  "insertEdge st =
     (if sticker FUp 7 st = sticker FRight 4 st then execute algInsertRight st
      else execute algInsertLeft st)"

text \<open>
  The outer loop \<open>for (let i = 0; i < maxAttempts; i++)\<close> with \<open>maxAttempts = 12\<close>;
  \<open>return\<close> leaves the phase, \<open>continue\<close> goes to the next attempt.
\<close>

fun middleLoop :: "nat \<Rightarrow> solver \<Rightarrow> solver option" where
  "middleLoop 0 st = Some st"
| "middleLoop (Suc n) st =
     (if middleSolved st then Some st
      else (let r = findTopEdge 4 st; edgeFound = fst r; st = snd r
            in if \<not> edgeFound \<and>
                  (sticker FFront 5 st \<noteq> sticker FFront 4 st \<or>
                   sticker FRight 3 st \<noteq> sticker FRight 4 st)
               then middleLoop n (execute algInsertRight st)
               else (case alignFrontEdge (if \<not> edgeFound then execute ''y'' st else st) of
                       None \<Rightarrow> None
                     | Some st \<Rightarrow> middleLoop n (insertEdge st))))"

definition solveMiddleLayer :: "solver \<Rightarrow> solver option" where
  "solveMiddleLayer st = middleLoop 12 st"

subsection \<open>solveYellowCross\<close>

definition isUp :: "nat \<Rightarrow> solver \<Rightarrow> bool" where
  "isUp idx st \<longleftrightarrow> sticker FUp idx st = yellow"

fun lShape :: "nat \<Rightarrow> solver \<Rightarrow> solver" where
  "lShape 0 st = st"
| "lShape (Suc n) st =
     (if isUp 3 st \<and> isUp 7 st then execute algYellowCross st
      else lShape n (execute ''U'' st))"

fun lineShape :: "nat \<Rightarrow> solver \<Rightarrow> solver" where
  "lineShape 0 st = st"
| "lineShape (Suc n) st =
     (if isUp 3 st \<and> isUp 5 st then execute algYellowCross st
      else lineShape n (execute ''U'' st))"

definition solveYellowCross :: "solver \<Rightarrow> solver" where
  "solveYellowCross st =
     (let state = [isUp 1 st, isUp 3 st, isUp 5 st, isUp 7 st];
          yellowCount = length (filter (\<lambda>b. b) state)
      in if yellowCount = 4 then st
         else (let st = (if yellowCount = 0 then execute algYellowCross st else st)
               in lineShape 2 (lShape 4 st)))"

subsection \<open>positionYellowEdges\<close>

fun alignYellowEdge :: "nat \<Rightarrow> solver \<Rightarrow> solver" where
  "alignYellowEdge 0 st = st"
| "alignYellowEdge (Suc n) st =
     (if sticker FFront 1 st = sticker FFront 4 st then st
      else alignYellowEdge n (execute ''U'' st))"

fun countCorrect :: "nat \<Rightarrow> nat \<Rightarrow> solver \<Rightarrow> nat \<times> solver" where
  "countCorrect 0 correctCount st = (correctCount, st)"
| "countCorrect (Suc n) correctCount st =
     countCorrect n
       (if sticker FFront 1 st = sticker FFront 4 st then correctCount + 1 else correctCount)
       (execute ''y'' st)"

partial_function (option) rotateToBackEdge :: "solver \<Rightarrow> solver option" where
  "rotateToBackEdge st =
     (if sticker FBack 1 st \<noteq> sticker FBack 4 st then rotateToBackEdge (execute ''y'' st)
      else Some st)"

fun edgesLoop :: "nat \<Rightarrow> solver \<Rightarrow> solver option" where
  "edgesLoop 0 st = Some st"
| "edgesLoop (Suc n) st =
     (let r = countCorrect 4 0 st; correctCount = fst r; st = snd r
      in if correctCount = 4 then Some st
         else (case rotateToBackEdge st of
                 None \<Rightarrow> None
               | Some st \<Rightarrow> edgesLoop n (execute algYellowEdges st)))"

definition positionYellowEdges :: "solver \<Rightarrow> solver option" where
  "positionYellowEdges st = edgesLoop 5 (alignYellowEdge 4 st)"

subsection \<open>positionYellowCorners\<close>

text \<open>
  \<open>areCornersPositioned\<close> rotates with \<open>y\<close> as it checks, so it returns the solver
  along with its answer.  A \<open>Set\<close> of three values has size 3 when they differ.
\<close>

fun cornersPositionedFrom :: "nat \<Rightarrow> solver \<Rightarrow> bool \<times> solver" where
  "cornersPositionedFrom 0 st = (True, st)"
| "cornersPositionedFrom (Suc n) st =
     (let expected = [sticker FFront 4 st, sticker FRight 4 st, ''Y''];
          actual = [sticker FFront 2 st, sticker FRight 0 st, sticker FUp 8 st]
      in if card (set expected) \<noteq> 3 \<or> card (set actual) \<noteq> 3 then (False, st)
         else if filter (\<lambda>x. x \<notin> set actual) expected \<noteq> [] then (False, st)
         else cornersPositionedFrom n (execute ''y'' st))"

definition areCornersPositioned :: "solver \<Rightarrow> bool \<times> solver" where
  "areCornersPositioned st = cornersPositionedFrom 4 st"

partial_function (option) positionYellowCorners :: "solver \<Rightarrow> solver option" where
  "positionYellowCorners st =
     (let r = areCornersPositioned st
      in if \<not> fst r then positionYellowCorners (execute algYellowCorners (snd r))
         else Some (snd r))"

subsection \<open>orientYellowCorners\<close>

fun orientCorner :: "nat \<Rightarrow> solver \<Rightarrow> solver" where
  "orientCorner 0 st = st"
| "orientCorner (Suc n) st =
     (let st = execute algInsertCorner st
      in if sticker FUp 8 st = ''Y'' then st else orientCorner n st)"

partial_function (option) orientYellowCorners :: "solver \<Rightarrow> solver option" where
  "orientYellowCorners st =
     (if length (filter (\<lambda>c. c = ''Y'') (up (cube st))) \<noteq> 9
      then orientYellowCorners
             (execute ''U'' (if sticker FUp 8 st \<noteq> ''Y'' then orientCorner 4 st else st))
      else Some st)"

subsection \<open>alignTopFace\<close>

partial_function (option) alignTopFace :: "solver \<Rightarrow> solver option" where
  "alignTopFace st =
     (if sticker FFront 1 st \<noteq> sticker FFront 4 st then alignTopFace (execute ''U'' st)
      else Some st)"

subsection \<open>simplifyMoves\<close>

text \<open>
  \<open>m[0]\<close> is \<open>undefined\<close> for the empty string.  Only two empty strings
  compare equal there; each counts one turn, so the pair becomes
  \<open>undefined + '2'\<close>, the text \<open>undefined2\<close>.  The solver's log holds no empty
  token.
\<close>

definition charAt0 :: "string \<Rightarrow> char option" where
  "charAt0 m = (case m of [] \<Rightarrow> None | c # _ \<Rightarrow> Some c)"

definition faceText :: "char option \<Rightarrow> string" where
  "faceText face = (case face of None \<Rightarrow> ''undefined'' | Some c \<Rightarrow> [c])"

definition endsWith :: "string \<Rightarrow> char \<Rightarrow> bool" where
  "endsWith m c \<longleftrightarrow> m \<noteq> [] \<and> last m = c"

definition turnsOf :: "string \<Rightarrow> nat" where
  "turnsOf m = (if endsWith m (CHR 0x27) then 3 else (if endsWith m CHR ''2'' then 2 else 1))"

definition merged :: "char option \<Rightarrow> nat \<Rightarrow> string list" where
  "merged face totalTurns =
     (if totalTurns = 0 then []
      else if totalTurns = 1 then [faceText face]
      else if totalTurns = 2 then [faceText face @ ''2'']
      else [faceText face @ [CHR 0x27]])"

text \<open>
  One scan of the inner \<open>while (i < simplified.length)\<close> loop: the new list and
  whether \<open>changed\<close> was set.
\<close>

fun simplifyPass :: "string list \<Rightarrow> string list \<times> bool" where
  "simplifyPass (m1 # m2 # rest) =
     (if charAt0 m1 = charAt0 m2
      then (merged (charAt0 m1) ((turnsOf m1 + turnsOf m2) mod 4) @ fst (simplifyPass rest), True)
      else (m1 # fst (simplifyPass (m2 # rest)), snd (simplifyPass (m2 # rest))))"
| "simplifyPass ms = (ms, False)"

lemma simplifyPass_length:
  "length (fst (simplifyPass ms)) \<le> length ms \<and>
   (snd (simplifyPass ms) \<longrightarrow> length (fst (simplifyPass ms)) < length ms)"
  by (induction ms rule: simplifyPass.induct) (auto simp: merged_def)

function simplifyMoves :: "string list \<Rightarrow> string list" where
  "simplifyMoves simplified =
     (if length simplified < 2 then simplified
      else (let r = simplifyPass simplified
            in if snd r then simplifyMoves (fst r) else fst r))"
  by pat_completeness auto
termination
  by (relation "measure length") (auto simp: simplifyPass_length)

declare simplifyMoves.simps [simp del]

subsection \<open>solve and the worker's reply\<close>

definition solve :: "solver \<Rightarrow> string list option" where
  "solve st =
     (if isSolved st then Some []
      else Option.bind (solveWhiteCorners (solveWhiteCross st)) (\<lambda>st.
           Option.bind (solveMiddleLayer st) (\<lambda>st.
           Option.bind (positionYellowEdges (solveYellowCross st)) (\<lambda>st.
           Option.bind (positionYellowCorners st) (\<lambda>st.
           Option.bind (orientYellowCorners st) (\<lambda>st.
           Option.bind (alignTopFace st) (\<lambda>st.
           Some (simplifyMoves (solution st)))))))))"

text \<open>
  \<open>solver_worker.js\<close>: \<open>solution\<close> and \<open>move_count = solution.length\<close> of the
  message posted on success.
\<close>

definition workerReply :: "CubeState \<Rightarrow> (string list \<times> nat) option" where
  "workerReply cubeState =
     map_option (\<lambda>solution. (solution, length solution)) (solve (newSolver cubeState))"

subsection \<open>Loop bodies, for counting iterations\<close>

text \<open>
  A body run \<open>k\<close> times in sequence; a run of the body that never ends ends the
  sequence.
\<close>

fun repeated :: "nat \<Rightarrow> (solver \<Rightarrow> solver option) \<Rightarrow> solver \<Rightarrow> solver option" where
  "repeated 0 body st = Some st"
| "repeated (Suc k) body st = Option.bind (body st) (repeated k body)"

text \<open>
  One attempt of \<open>solveMiddleLayer\<close> on a middle layer that is not solved: the
  search of the top layer, then (\<open>insertTopEdge\<close>) the pop-out or the alignment
  and insertion.  \<open>middleLoop_Suc\<close> below shows it is the body of \<open>middleLoop\<close>.
\<close>

definition insertTopEdge :: "bool \<Rightarrow> solver \<Rightarrow> solver option" where
  "insertTopEdge edgeFound st =
     (if \<not> edgeFound \<and>
         (sticker FFront 5 st \<noteq> sticker FFront 4 st \<or>
          sticker FRight 3 st \<noteq> sticker FRight 4 st)
      then Some (execute algInsertRight st)
      else Option.bind (alignFrontEdge (if \<not> edgeFound then execute ''y'' st else st))
             (\<lambda>st. Some (insertEdge st)))"

definition middleAttempt :: "solver \<Rightarrow> solver option" where
  "middleAttempt st = (let r = findTopEdge 4 st in insertTopEdge (fst r) (snd r))"

text \<open>
  One full iteration of the outer loop of \<open>positionYellowEdges\<close>: the four \<open>y\<close>
  of the count, the rotation to the back edge, the algorithm.
\<close>

definition edgesAttempt :: "solver \<Rightarrow> solver option" where
  "edgesAttempt st =
     Option.bind (rotateToBackEdge ((execute ''y'' ^^ 4) st))
       (\<lambda>st. Some (execute algYellowEdges st))"

section \<open>The objects behind the solver: arrays on a heap\<close>

text \<open>
  Whether solving can disturb the caller's cube is a question about which arrays
  the writes reach, so here the face arrays live in a store.  An address is an
  index into the store; allocation appends; a state object maps each of its six
  keys to the address of its array.  The engine's operations are the ones above,
  reading and writing through the state object of the receiver.
\<close>

type_synonym addr = nat
type_synonym store = "face list"
type_synonym stateObject = "faceName \<Rightarrow> addr"

definition hFacelet :: "stateObject \<Rightarrow> faceName \<Rightarrow> nat \<Rightarrow> store \<Rightarrow> color" where
  "hFacelet r f i h = (h ! r f) ! i"

definition hAssign :: "stateObject \<Rightarrow> faceName \<Rightarrow> nat \<Rightarrow> color \<Rightarrow> store \<Rightarrow> store" where
  "hAssign r f i v h = h[r f := (h ! r f)[i := v]]"

definition hRotateFace :: "stateObject \<Rightarrow> faceName \<Rightarrow> bool \<Rightarrow> store \<Rightarrow> store" where
  "hRotateFace r f clockwise h = h[r f := rotateArray clockwise (h ! r f)]"

definition hPerformF :: "stateObject \<Rightarrow> store \<Rightarrow> store" where
  "hPerformF r h0 =
     (let h = hRotateFace r FFront True h0;
          temp = [hFacelet r FUp 6 h, hFacelet r FUp 7 h, hFacelet r FUp 8 h];
          h = hAssign r FUp 6 (hFacelet r FLeft 8 h) h;
          h = hAssign r FUp 7 (hFacelet r FLeft 5 h) h;
          h = hAssign r FUp 8 (hFacelet r FLeft 2 h) h;
          h = hAssign r FLeft 2 (hFacelet r FDown 0 h) h;
          h = hAssign r FLeft 5 (hFacelet r FDown 1 h) h;
          h = hAssign r FLeft 8 (hFacelet r FDown 2 h) h;
          h = hAssign r FDown 0 (hFacelet r FRight 6 h) h;
          h = hAssign r FDown 1 (hFacelet r FRight 3 h) h;
          h = hAssign r FDown 2 (hFacelet r FRight 0 h) h;
          h = hAssign r FRight 0 (temp ! 0) h;
          h = hAssign r FRight 3 (temp ! 1) h;
          h = hAssign r FRight 6 (temp ! 2) h
      in h)"

definition hPerformB :: "stateObject \<Rightarrow> store \<Rightarrow> store" where
  "hPerformB r h0 =
     (let h = hRotateFace r FBack True h0;
          temp = [hFacelet r FUp 0 h, hFacelet r FUp 1 h, hFacelet r FUp 2 h];
          h = hAssign r FUp 0 (hFacelet r FRight 2 h) h;
          h = hAssign r FUp 1 (hFacelet r FRight 5 h) h;
          h = hAssign r FUp 2 (hFacelet r FRight 8 h) h;
          h = hAssign r FRight 2 (hFacelet r FDown 8 h) h;
          h = hAssign r FRight 5 (hFacelet r FDown 7 h) h;
          h = hAssign r FRight 8 (hFacelet r FDown 6 h) h;
          h = hAssign r FDown 6 (hFacelet r FLeft 0 h) h;
          h = hAssign r FDown 7 (hFacelet r FLeft 3 h) h;
          h = hAssign r FDown 8 (hFacelet r FLeft 6 h) h;
          h = hAssign r FLeft 0 (temp ! 2) h;
          h = hAssign r FLeft 3 (temp ! 1) h;
          h = hAssign r FLeft 6 (temp ! 0) h
      in h)"

definition hPerformU :: "stateObject \<Rightarrow> store \<Rightarrow> store" where
  "hPerformU r h0 =
     (let h = hRotateFace r FUp True h0;
          temp = [hFacelet r FFront 0 h, hFacelet r FFront 1 h, hFacelet r FFront 2 h];
          v = [hFacelet r FRight 0 h, hFacelet r FRight 1 h, hFacelet r FRight 2 h];
          h = hAssign r FFront 0 (v ! 0) h;
          h = hAssign r FFront 1 (v ! 1) h;
          h = hAssign r FFront 2 (v ! 2) h;
          v = [hFacelet r FBack 0 h, hFacelet r FBack 1 h, hFacelet r FBack 2 h];
          h = hAssign r FRight 0 (v ! 0) h;
          h = hAssign r FRight 1 (v ! 1) h;
          h = hAssign r FRight 2 (v ! 2) h;
          v = [hFacelet r FLeft 0 h, hFacelet r FLeft 1 h, hFacelet r FLeft 2 h];
          h = hAssign r FBack 0 (v ! 0) h;
          h = hAssign r FBack 1 (v ! 1) h;
          h = hAssign r FBack 2 (v ! 2) h;
          h = hAssign r FLeft 0 (temp ! 0) h;
          h = hAssign r FLeft 1 (temp ! 1) h;
          h = hAssign r FLeft 2 (temp ! 2) h
      in h)"

definition hPerformD :: "stateObject \<Rightarrow> store \<Rightarrow> store" where
  "hPerformD r h0 =
     (let h = hRotateFace r FDown True h0;
          temp = [hFacelet r FFront 6 h, hFacelet r FFront 7 h, hFacelet r FFront 8 h];
          v = [hFacelet r FLeft 6 h, hFacelet r FLeft 7 h, hFacelet r FLeft 8 h];
          h = hAssign r FFront 6 (v ! 0) h;
          h = hAssign r FFront 7 (v ! 1) h;
          h = hAssign r FFront 8 (v ! 2) h;
          v = [hFacelet r FBack 6 h, hFacelet r FBack 7 h, hFacelet r FBack 8 h];
          h = hAssign r FLeft 6 (v ! 0) h;
          h = hAssign r FLeft 7 (v ! 1) h;
          h = hAssign r FLeft 8 (v ! 2) h;
          v = [hFacelet r FRight 6 h, hFacelet r FRight 7 h, hFacelet r FRight 8 h];
          h = hAssign r FBack 6 (v ! 0) h;
          h = hAssign r FBack 7 (v ! 1) h;
          h = hAssign r FBack 8 (v ! 2) h;
          h = hAssign r FRight 6 (temp ! 0) h;
          h = hAssign r FRight 7 (temp ! 1) h;
          h = hAssign r FRight 8 (temp ! 2) h
      in h)"

definition hPerformL :: "stateObject \<Rightarrow> store \<Rightarrow> store" where
  "hPerformL r h0 =
     (let h = hRotateFace r FLeft True h0;
          temp = [hFacelet r FUp 0 h, hFacelet r FUp 3 h, hFacelet r FUp 6 h];
          h = hAssign r FUp 0 (hFacelet r FBack 8 h) h;
          h = hAssign r FUp 3 (hFacelet r FBack 5 h) h;
          h = hAssign r FUp 6 (hFacelet r FBack 2 h) h;
          h = hAssign r FBack 2 (hFacelet r FDown 6 h) h;
          h = hAssign r FBack 5 (hFacelet r FDown 3 h) h;
          h = hAssign r FBack 8 (hFacelet r FDown 0 h) h;
          h = hAssign r FDown 0 (hFacelet r FFront 0 h) h;
          h = hAssign r FDown 3 (hFacelet r FFront 3 h) h;
          h = hAssign r FDown 6 (hFacelet r FFront 6 h) h;
          h = hAssign r FFront 0 (temp ! 0) h;
          h = hAssign r FFront 3 (temp ! 1) h;
          h = hAssign r FFront 6 (temp ! 2) h
      in h)"

definition hPerformR :: "stateObject \<Rightarrow> store \<Rightarrow> store" where
  "hPerformR r h0 =
     (let h = hRotateFace r FRight True h0;
          temp = [hFacelet r FUp 2 h, hFacelet r FUp 5 h, hFacelet r FUp 8 h];
          h = hAssign r FUp 2 (hFacelet r FFront 2 h) h;
          h = hAssign r FUp 5 (hFacelet r FFront 5 h) h;
          h = hAssign r FUp 8 (hFacelet r FFront 8 h) h;
          h = hAssign r FFront 2 (hFacelet r FDown 2 h) h;
          h = hAssign r FFront 5 (hFacelet r FDown 5 h) h;
          h = hAssign r FFront 8 (hFacelet r FDown 8 h) h;
          h = hAssign r FDown 2 (hFacelet r FBack 6 h) h;
          h = hAssign r FDown 5 (hFacelet r FBack 3 h) h;
          h = hAssign r FDown 8 (hFacelet r FBack 0 h) h;
          h = hAssign r FBack 0 (temp ! 2) h;
          h = hAssign r FBack 3 (temp ! 1) h;
          h = hAssign r FBack 6 (temp ! 0) h
      in h)"

definition hPerformMove :: "char \<Rightarrow> stateObject \<Rightarrow> store \<Rightarrow> store" where
  "hPerformMove f r h =
     (if f = CHR ''F'' then hPerformF r h
      else if f = CHR ''B'' then hPerformB r h
      else if f = CHR ''U'' then hPerformU r h
      else if f = CHR ''D'' then hPerformD r h
      else if f = CHR ''L'' then hPerformL r h
      else if f = CHR ''R'' then hPerformR r h
      else h)"

definition hMove :: "char \<Rightarrow> bool \<Rightarrow> bool \<Rightarrow> stateObject \<Rightarrow> store \<Rightarrow> store" where
  "hMove f prime double r h = (hPerformMove f r ^^ cycles prime double) h"

definition hApplyToken :: "string \<Rightarrow> stateObject \<Rightarrow> store \<Rightarrow> store" where
  "hApplyToken m r h =
     hMove (toUpperCase (hd m)) (includesChar m (CHR 0x27)) (includesChar m CHR ''2'') r h"

definition hExecuteAlgorithm :: "string \<Rightarrow> stateObject \<Rightarrow> store \<Rightarrow> store" where
  "hExecuteAlgorithm algorithm r h = foldl (\<lambda>h m. hApplyToken m r h) h (tokens algorithm)"

text \<open>
  \<open>JSON.parse(JSON.stringify(state))\<close>: a new state object whose six arrays are
  new and hold the same facelets.
\<close>

fun faceIndex :: "faceName \<Rightarrow> nat" where
  "faceIndex FUp = 0"
| "faceIndex FDown = 1"
| "faceIndex FFront = 2"
| "faceIndex FBack = 3"
| "faceIndex FLeft = 4"
| "faceIndex FRight = 5"

definition deepCopy :: "stateObject \<Rightarrow> store \<Rightarrow> stateObject \<times> store" where
  "deepCopy r h = (\<lambda>f. length h + faceIndex f, h @ map (\<lambda>f. h ! r f) allFaces)"

text \<open>
  \<open>new CubeModel()\<close> allocates the arrays of its \<open>solvedState\<close> and, in
  \<open>reset()\<close>, a deep copy of them for \<open>state\<close>.
\<close>

definition newCubeModel :: "store \<Rightarrow> stateObject \<times> store" where
  "newCubeModel h =
     (let solvedRefs = (\<lambda>f. length h + faceIndex f);
          h = h @ map (\<lambda>f. getFace f solvedState) allFaces
      in deepCopy solvedRefs h)"

text \<open>
  The solver object on the heap, and its constructor: \<open>this.cube = new CubeModel()\<close>,
  then \<open>this.cube.state\<close> is replaced by a deep copy of the caller's state, and
  \<open>this.solution = []\<close>.
\<close>

record heapSolver =
  heap :: store
  cubeState :: stateObject
  solutionLog :: "string list"

definition newHeapSolver :: "stateObject \<Rightarrow> store \<Rightarrow> heapSolver" where
  "newHeapSolver callerState h =
     (let h = snd (newCubeModel h);
          c = deepCopy callerState h
      in \<lparr>heap = snd c, cubeState = fst c, solutionLog = []\<rparr>)"

definition hExecute :: "string \<Rightarrow> heapSolver \<Rightarrow> heapSolver" where
  "hExecute moves st =
     st\<lparr>heap := hExecuteAlgorithm moves (cubeState st) (heap st),
        solutionLog := solutionLog st @ tokens moves\<rparr>"

text \<open>
  Every phase of \<open>solve()\<close> changes the solver only through \<open>execute\<close>; a run of
  \<open>solve()\<close>, finished or not, is the constructor followed by some sequence of
  \<open>execute\<close> calls.
\<close>

definition executeAll :: "string list \<Rightarrow> heapSolver \<Rightarrow> heapSolver" where
  "executeAll algorithms st = foldl (\<lambda>st moves. hExecute moves st) st algorithms"

text \<open>The cube a state object denotes, and the solver a heap solver denotes.\<close>

definition loadState :: "stateObject \<Rightarrow> store \<Rightarrow> CubeState" where
  "loadState r h =
     \<lparr>up = h ! r FUp, down = h ! r FDown, front = h ! r FFront,
      back = h ! r FBack, left = h ! r FLeft, right = h ! r FRight\<rparr>"

definition loadSolver :: "heapSolver \<Rightarrow> solver" where
  "loadSolver st = \<lparr>cube = loadState (cubeState st) (heap st), solution = solutionLog st\<rparr>"

section \<open>Move tokens, replay and the move-wise inverse\<close>

text \<open>
  The move grammar of the data model: a face letter, optionally followed by
  \<open>'\<close> or \<open>2\<close>.
\<close>

definition faceLetters :: string where
  "faceLetters = ''UDLRFB''"

definition moveToken :: "string \<Rightarrow> bool" where
  "moveToken m =
     (case m of
        [f] \<Rightarrow> f \<in> set faceLetters
      | [f, x] \<Rightarrow> f \<in> set faceLetters \<and> (x = CHR 0x27 \<or> x = CHR ''2'')
      | _ \<Rightarrow> False)"

text \<open>
  Consumers replay a move list by \<open>executeAlgorithm(moves.join(' '))\<close>.
\<close>

fun joinMoves :: "string list \<Rightarrow> string" where
  "joinMoves [] = []"
| "joinMoves [m] = m"
| "joinMoves (m # ms) = m @ CHR '' '' # joinMoves ms"

definition replay :: "string list \<Rightarrow> CubeState \<Rightarrow> CubeState" where
  "replay moves s = executeAlgorithm (joinMoves moves) s"

text \<open>
  The move-wise inverse as the specification words it: the tokens in reverse
  order, a \<open>'\<close>-suffixed move and the unsuffixed move swapped, a \<open>2\<close>-suffixed
  move left as it is.
\<close>

definition invertMove :: "string \<Rightarrow> string" where
  "invertMove m =
     (if endsWith m (CHR 0x27) then butlast m
      else if endsWith m CHR ''2'' then m
      else m @ [CHR 0x27])"

definition inverseAlgorithm :: "string list \<Rightarrow> string list" where
  "inverseAlgorithm moves = map invertMove (rev moves)"

text \<open>
  The tokens of the solver's log: the move grammar with the whole-cube rotation
  letter \<open>y\<close> beside the six face letters.
\<close>

definition logLetters :: string where
  "logLetters = ''UDLRFBy''"

definition logToken :: "string \<Rightarrow> bool" where
  "logToken m =
     (case m of
        [f] \<Rightarrow> f \<in> set logLetters
      | [f, x] \<Rightarrow> f \<in> set logLetters \<and> (x = CHR 0x27 \<or> x = CHR ''2'')
      | _ \<Rightarrow> False)"

section \<open>Properties of the engine\<close>

lemma len9:
  "length xs = 9 \<Longrightarrow> \<exists>a b c d e f g h i. xs = [a, b, c, d, e, f, g, h, i]"
  by (auto simp: eval_nat_numeral length_Suc_conv)

lemma wf_explicit:
  assumes "wellFormed s"
  obtains u0 u1 u2 u3 u4 u5 u6 u7 u8 d0 d1 d2 d3 d4 d5 d6 d7 d8
          f0 f1 f2 f3 f4 f5 f6 f7 f8 b0 b1 b2 b3 b4 b5 b6 b7 b8
          l0 l1 l2 l3 l4 l5 l6 l7 l8 r0 r1 r2 r3 r4 r5 r6 r7 r8
  where "s = \<lparr>up = [u0, u1, u2, u3, u4, u5, u6, u7, u8],
              down = [d0, d1, d2, d3, d4, d5, d6, d7, d8],
              front = [f0, f1, f2, f3, f4, f5, f6, f7, f8],
              back = [b0, b1, b2, b3, b4, b5, b6, b7, b8],
              left = [l0, l1, l2, l3, l4, l5, l6, l7, l8],
              right = [r0, r1, r2, r3, r4, r5, r6, r7, r8]\<rparr>"
proof -
  from assms have len: "length (up s) = 9" "length (down s) = 9" "length (front s) = 9"
    "length (back s) = 9" "length (left s) = 9" "length (right s) = 9"
    by (simp_all add: wellFormed_def)
  from len(1) obtain u0 u1 u2 u3 u4 u5 u6 u7 u8
    where u: "up s = [u0, u1, u2, u3, u4, u5, u6, u7, u8]" using len9 by blast
  from len(2) obtain d0 d1 d2 d3 d4 d5 d6 d7 d8
    where d: "down s = [d0, d1, d2, d3, d4, d5, d6, d7, d8]" using len9 by blast
  from len(3) obtain f0 f1 f2 f3 f4 f5 f6 f7 f8
    where f: "front s = [f0, f1, f2, f3, f4, f5, f6, f7, f8]" using len9 by blast
  from len(4) obtain b0 b1 b2 b3 b4 b5 b6 b7 b8
    where b: "back s = [b0, b1, b2, b3, b4, b5, b6, b7, b8]" using len9 by blast
  from len(5) obtain l0 l1 l2 l3 l4 l5 l6 l7 l8
    where l: "left s = [l0, l1, l2, l3, l4, l5, l6, l7, l8]" using len9 by blast
  from len(6) obtain r0 r1 r2 r3 r4 r5 r6 r7 r8
    where r: "right s = [r0, r1, r2, r3, r4, r5, r6, r7, r8]" using len9 by blast
  from u d f b l r
  have "s = \<lparr>up = [u0, u1, u2, u3, u4, u5, u6, u7, u8],
              down = [d0, d1, d2, d3, d4, d5, d6, d7, d8],
              front = [f0, f1, f2, f3, f4, f5, f6, f7, f8],
              back = [b0, b1, b2, b3, b4, b5, b6, b7, b8],
              left = [l0, l1, l2, l3, l4, l5, l6, l7, l8],
              right = [r0, r1, r2, r3, r4, r5, r6, r7, r8]\<rparr>"
    by (cases s) simp
  then show thesis by (rule that)
qed

lemmas engine_defs =
  facelet_def assign_def rotateFace_def rotateArray_def mapping_cw_def mapping_ccw_def Let_def

lemmas perform_defs =
  performF_def performB_def performU_def performD_def performL_def performR_def

lemma performF4: "wellFormed s \<Longrightarrow> performF (performF (performF (performF s))) = s"
  by (erule wf_explicit) (simp add: performF_def engine_defs)

lemma performB4: "wellFormed s \<Longrightarrow> performB (performB (performB (performB s))) = s"
  by (erule wf_explicit) (simp add: performB_def engine_defs)

lemma performU4: "wellFormed s \<Longrightarrow> performU (performU (performU (performU s))) = s"
  by (erule wf_explicit) (simp add: performU_def engine_defs)

lemma performD4: "wellFormed s \<Longrightarrow> performD (performD (performD (performD s))) = s"
  by (erule wf_explicit) (simp add: performD_def engine_defs)

lemma performL4: "wellFormed s \<Longrightarrow> performL (performL (performL (performL s))) = s"
  by (erule wf_explicit) (simp add: performL_def engine_defs)

lemma performR4: "wellFormed s \<Longrightarrow> performR (performR (performR (performR s))) = s"
  by (erule wf_explicit) (simp add: performR_def engine_defs)

lemma performMove4:
  "wellFormed s \<Longrightarrow> performMove f (performMove f (performMove f (performMove f s))) = s"
  by (simp add: performMove_def performF4 performB4 performU4 performD4 performL4 performR4)

lemma wellFormed_performMove: "wellFormed s \<Longrightarrow> wellFormed (performMove f s)"
  by (simp add: performMove_def perform_defs engine_defs wellFormed_def)

lemma center_rotateFace: "facelet g 4 (rotateFace h clockwise s) = facelet g 4 s"
  by (cases g; cases h) (simp_all add: engine_defs nth_append)

lemma center_performMove: "facelet g 4 (performMove f s) = facelet g 4 s"
  by (cases g) (simp_all add: performMove_def perform_defs engine_defs nth_append)

lemma performMove_other: "f \<notin> set faceLetters \<Longrightarrow> performMove f s = s"
  by (simp add: performMove_def faceLetters_def)

lemma wellFormed_funpow: "wellFormed s \<Longrightarrow> wellFormed ((performMove f ^^ n) s)"
  by (induction n) (simp_all add: wellFormed_performMove)

lemma performMove_pow4: "wellFormed s \<Longrightarrow> (performMove f ^^ 4) s = s"
  by (simp add: eval_nat_numeral performMove4)

lemma performMove_pow4k: "wellFormed s \<Longrightarrow> (performMove f ^^ (4 * k)) s = s"
proof (induction k)
  case 0
  show ?case by simp
next
  case (Suc k)
  have "(performMove f ^^ (4 * Suc k)) s = (performMove f ^^ 4) ((performMove f ^^ (4 * k)) s)"
    by (simp add: funpow_add)
  with Suc show ?case by (simp add: performMove_pow4)
qed

lemma performMove_pow_mod4:
  assumes "wellFormed s"
  shows "(performMove f ^^ (n mod 4)) s = (performMove f ^^ n) s"
proof -
  have "(performMove f ^^ n) s = (performMove f ^^ (n mod 4 + 4 * (n div 4))) s"
    by simp
  also have "\<dots> = (performMove f ^^ (n mod 4)) ((performMove f ^^ (4 * (n div 4))) s)"
    by (simp only: funpow_add o_apply)
  also have "\<dots> = (performMove f ^^ (n mod 4)) s"
    using assms by (simp add: performMove_pow4k)
  finally show ?thesis by simp
qed

lemma center_funpow: "facelet g 4 ((performMove f ^^ n) s) = facelet g 4 s"
  by (induction n) (simp_all add: center_performMove)

lemma center_applyToken: "facelet g 4 (applyToken m s) = facelet g 4 s"
  by (simp add: applyToken_def move_def center_funpow)

lemma center_applyTokens: "facelet g 4 (foldl (\<lambda>s m. applyToken m s) s ms) = facelet g 4 s"
  by (induction ms arbitrary: s) (simp_all add: center_applyToken)

lemma center_executeAlgorithm: "facelet g 4 (executeAlgorithm algorithm s) = facelet g 4 s"
  by (simp add: executeAlgorithm_def center_applyTokens)

lemma wellFormed_applyToken: "wellFormed s \<Longrightarrow> wellFormed (applyToken m s)"
  by (simp add: applyToken_def move_def wellFormed_funpow)

lemma wellFormed_applyTokens:
  "wellFormed s \<Longrightarrow> wellFormed (foldl (\<lambda>s m. applyToken m s) s ms)"
  by (induction ms arbitrary: s) (simp_all add: wellFormed_applyToken)

lemma wellFormed_executeAlgorithm: "wellFormed s \<Longrightarrow> wellFormed (executeAlgorithm algorithm s)"
  by (simp add: executeAlgorithm_def wellFormed_applyTokens)

lemma applyToken_other: "toUpperCase (hd m) \<notin> set faceLetters \<Longrightarrow> applyToken m s = s"
proof -
  assume a: "toUpperCase (hd m) \<notin> set faceLetters"
  have "(performMove (toUpperCase (hd m)) ^^ n) s = s" for n
    by (induction n) (simp_all add: performMove_other [OF a])
  then show ?thesis by (simp add: applyToken_def move_def)
qed

lemma applyTokens_other:
  "\<forall>m\<in>set ms. toUpperCase (hd m) \<notin> set faceLetters \<Longrightarrow>
   foldl (\<lambda>s m. applyToken m s) s ms = s"
  by (induction ms arbitrary: s) (simp_all add: applyToken_other)

lemma split_space_nospace: "CHR '' '' \<notin> set m \<Longrightarrow> split_space m = [m]"
  by (induction m) auto

lemma split_space_append:
  "CHR '' '' \<notin> set m \<Longrightarrow> split_space (m @ CHR '' '' # rest) = m # split_space rest"
  by (induction m) auto

lemma tokens_single: "m \<noteq> [] \<Longrightarrow> CHR '' '' \<notin> set m \<Longrightarrow> tokens m = [m]"
  by (simp add: tokens_def split_space_nospace)

lemma tokens_joinMoves:
  "\<forall>m\<in>set ms. m \<noteq> [] \<and> CHR '' '' \<notin> set m \<Longrightarrow> tokens (joinMoves ms) = ms"
proof (induction ms rule: joinMoves.induct)
  case 1
  show ?case by (simp add: tokens_def)
next
  case (2 m)
  then show ?case by (simp add: tokens_single)
next
  case (3 m v va)
  then have "tokens (joinMoves (v # va)) = v # va" by simp
  with 3 show ?case by (simp add: tokens_def split_space_append)
qed

lemma moveToken_cases:
  "moveToken m \<longleftrightarrow> (\<exists>f\<in>set faceLetters. m = [f] \<or> m = [f, CHR 0x27] \<or> m = [f, CHR ''2''])"
  by (auto simp: moveToken_def split: list.splits)

lemma moveToken_shape: "moveToken m \<Longrightarrow> m \<noteq> [] \<and> CHR '' '' \<notin> set m"
  by (auto simp: moveToken_cases faceLetters_def)

lemma toUpperCase_face: "f \<in> set faceLetters \<Longrightarrow> toUpperCase f = f"
  by (auto simp: faceLetters_def toUpperCase_def)

lemma toUpperCase_y: "toUpperCase CHR ''y'' = CHR ''Y''"
  by code_simp

lemma y_not_face: "toUpperCase (hd ''y'') \<notin> set faceLetters"
  by (simp add: toUpperCase_y faceLetters_def)

lemma applyToken_moveToken:
  "moveToken m \<Longrightarrow> applyToken m s = (performMove (hd m) ^^ turnsOf m) s"
  by (auto simp: moveToken_cases applyToken_def move_def cycles_def includesChar_def
        turnsOf_def endsWith_def toUpperCase_face faceLetters_def)

lemma replay_moves:
  "list_all moveToken ms \<Longrightarrow> replay ms s = foldl (\<lambda>s m. applyToken m s) s ms"
  by (simp add: replay_def executeAlgorithm_def tokens_joinMoves list_all_iff moveToken_shape)

lemma faceLetter_plain:
  "f \<in> set faceLetters \<Longrightarrow> f \<noteq> CHR ''2'' \<and> f \<noteq> CHR 0x27 \<and> f \<noteq> CHR '' ''"
  by (auto simp: faceLetters_def)

lemma invertMove_moveToken:
  assumes "moveToken m"
  shows "moveToken (invertMove m) \<and> hd (invertMove m) = hd m \<and>
         turnsOf (invertMove m) + turnsOf m = 4"
proof -
  from assms obtain f where f: "f \<in> set faceLetters"
    and m: "m = [f] \<or> m = [f, CHR 0x27] \<or> m = [f, CHR ''2'']"
    by (auto simp: moveToken_cases)
  from m f faceLetter_plain [OF f] show ?thesis
    by (elim disjE) (simp_all add: moveToken_def invertMove_def turnsOf_def endsWith_def)
qed

lemma applyToken_invertMove:
  assumes "moveToken m" "wellFormed s"
  shows "applyToken (invertMove m) (applyToken m s) = s"
proof -
  from invertMove_moveToken [OF assms(1)]
  have i: "moveToken (invertMove m)" "hd (invertMove m) = hd m"
    "turnsOf (invertMove m) + turnsOf m = 4" by simp_all
  have "applyToken (invertMove m) (applyToken m s) =
        (performMove (hd m) ^^ (turnsOf (invertMove m) + turnsOf m)) s"
    by (simp add: applyToken_moveToken assms(1) i(1,2) funpow_add)
  then show ?thesis by (simp add: i(3) performMove_pow4 assms(2))
qed

lemma applyTokens_inverse:
  "list_all moveToken ms \<Longrightarrow> wellFormed s \<Longrightarrow>
   foldl (\<lambda>s m. applyToken m s) (foldl (\<lambda>s m. applyToken m s) s ms) (inverseAlgorithm ms) = s"
proof (induction ms arbitrary: s)
  case Nil
  show ?case by (simp add: inverseAlgorithm_def)
next
  case (Cons m ms)
  then have m: "moveToken m" and ms: "list_all moveToken ms" by simp_all
  have wf: "wellFormed (applyToken m s)" by (simp add: wellFormed_applyToken Cons.prems(2))
  from Cons.IH [OF ms wf] show ?case
    by (simp add: inverseAlgorithm_def applyToken_invertMove m Cons.prems(2))
qed

lemma inverseAlgorithm_moveToken:
  "list_all moveToken ms \<Longrightarrow> list_all moveToken (inverseAlgorithm ms)"
  by (simp add: inverseAlgorithm_def list_all_iff invertMove_moveToken)

lemma merged_effect:
  assumes f: "f \<in> set faceLetters" and k: "k < 4"
  shows "foldl (\<lambda>s m. applyToken m s) s (merged (Some f) k) = (performMove f ^^ k) s \<and>
         list_all moveToken (merged (Some f) k)"
proof -
  from k have "k = 0 \<or> k = 1 \<or> k = 2 \<or> k = 3" by arith
  then show ?thesis
    using f faceLetter_plain [OF f]
    by (elim disjE)
       (simp_all add: merged_def faceText_def applyToken_moveToken moveToken_def
          turnsOf_def endsWith_def)
qed

lemma charAt0_moveToken:
  "moveToken m \<Longrightarrow> charAt0 m = Some (hd m) \<and> hd m \<in> set faceLetters"
  by (auto simp: moveToken_cases charAt0_def)

lemma simplifyPass_effect:
  "list_all moveToken ms \<Longrightarrow> wellFormed s \<Longrightarrow>
   foldl (\<lambda>s m. applyToken m s) s (fst (simplifyPass ms)) =
     foldl (\<lambda>s m. applyToken m s) s ms \<and>
   list_all moveToken (fst (simplifyPass ms))"
proof (induction ms arbitrary: s rule: simplifyPass.induct)
  case (1 m1 m2 rest)
  from "1.prems" have m1: "moveToken m1" and m2: "moveToken m2"
    and rest: "list_all moveToken rest" by simp_all
  show ?case
  proof (cases "charAt0 m1 = charAt0 m2")
    case True
    let ?f = "hd m1"
    let ?k = "(turnsOf m1 + turnsOf m2) mod 4"
    from True charAt0_moveToken [OF m1] charAt0_moveToken [OF m2]
    have hd: "hd m2 = ?f" and f: "?f \<in> set faceLetters" and c: "charAt0 m1 = Some ?f"
      and c2: "charAt0 m2 = Some ?f"
      by simp_all
    have k: "?k < 4" by simp
    let ?s' = "applyToken m2 (applyToken m1 s)"
    have "(performMove ?f ^^ ?k) s = (performMove ?f ^^ (turnsOf m2 + turnsOf m1)) s"
      by (simp add: performMove_pow_mod4 [OF "1.prems"(2)] add.commute)
    also have "\<dots> = ?s'"
      by (simp add: funpow_add applyToken_moveToken m1 m2 hd)
    finally have eff: "(performMove ?f ^^ ?k) s = ?s'" .
    have wf: "wellFormed ?s'"
      by (simp add: wellFormed_applyToken "1.prems"(2))
    from "1.IH"(1) [OF True rest wf] merged_effect [OF f k, of s] eff
    show ?thesis by (simp add: True c2)
  next
    case False
    have wf: "wellFormed (applyToken m1 s)"
      by (simp add: wellFormed_applyToken "1.prems"(2))
    from "1.IH"(2) [OF False _ wf] m2 rest m1
    show ?thesis by (simp add: False)
  qed
qed simp_all

lemma simplifyMoves_effect:
  "list_all moveToken ms \<Longrightarrow> wellFormed s \<Longrightarrow>
   foldl (\<lambda>s m. applyToken m s) s (simplifyMoves ms) =
     foldl (\<lambda>s m. applyToken m s) s ms \<and>
   list_all moveToken (simplifyMoves ms)"
proof (induction ms rule: simplifyMoves.induct)
  case (1 simplified)
  show ?case
  proof (cases "length simplified < 2")
    case True
    then show ?thesis using "1.prems" by (subst (1 2) simplifyMoves.simps) simp
  next
    case False
    note pass = simplifyPass_effect [OF "1.prems"]
    show ?thesis
    proof (cases "snd (simplifyPass simplified)")
      case True
      from "1.IH" [OF False refl True] pass "1.prems"(2)
      have "foldl (\<lambda>s m. applyToken m s) s (simplifyMoves (fst (simplifyPass simplified))) =
              foldl (\<lambda>s m. applyToken m s) s simplified \<and>
            list_all moveToken (simplifyMoves (fst (simplifyPass simplified)))"
        by simp
      then show ?thesis using False True
        by (subst (1 2) simplifyMoves.simps) (simp add: Let_def)
    next
      case snd_False: False
      then show ?thesis using False pass
        by (subst (1 2) simplifyMoves.simps) (simp add: Let_def)
    qed
  qed
qed

lemma replay_simplifyMoves:
  "list_all moveToken ms \<Longrightarrow> wellFormed s \<Longrightarrow> replay (simplifyMoves ms) s = replay ms s"
  by (simp add: replay_moves simplifyMoves_effect)

lemma replay_inverse:
  "list_all moveToken ms \<Longrightarrow> wellFormed s \<Longrightarrow>
   replay (inverseAlgorithm ms) (replay ms s) = s"
  by (simp add: replay_moves inverseAlgorithm_moveToken applyTokens_inverse)

section \<open>Properties of the solver\<close>

lemma center_execute: "sticker f 4 (execute moves st) = sticker f 4 st"
  by (simp add: sticker_def execute_def center_executeAlgorithm)


lemma center_cornerSearch: "sticker f 4 (cornerSearch n fc lc st) = sticker f 4 st"
  by (induction n arbitrary: st) (simp_all add: center_execute Let_def)

lemma rotateToSlot_center:
  "rotateToSlot fc lc st = Some st' \<Longrightarrow> \<forall>f. sticker f 4 st' = sticker f 4 st"
  by (erule rotateToSlot.raw_induct [rotated]) (auto split: if_splits simp: center_execute)

lemma rotateToSlot_exit:
  "rotateToSlot fc lc st = Some st' \<Longrightarrow> sticker FFront 4 st' = fc \<and> sticker FRight 4 st' = lc"
  by (erule rotateToSlot.raw_induct [rotated]) (auto split: if_splits)

lemma insertCorner_Some:
  "insertCorner fc st = Some st' \<Longrightarrow> \<forall>f. sticker f 4 st' = sticker f 4 st"
  by (erule insertCorner.raw_induct [rotated]) (auto split: if_splits simp: center_execute)

lemma solveCorner_Some:
  assumes "solveCorner (fc, lc) st = Some st'"
  shows "sticker FFront 4 st = fc \<and> (\<forall>f. sticker f 4 st' = sticker f 4 st)"
proof -
  from assms obtain x where x: "rotateToSlot fc lc st = Some x"
    and i: "insertCorner fc (cornerSearch 5 fc lc x) = Some st'"
    by (auto simp: solveCorner_def split: Option.bind_splits)
  from rotateToSlot_exit [OF x] rotateToSlot_center [OF x]
  have a: "sticker FFront 4 x = fc" and b: "\<And>f. sticker f 4 x = sticker f 4 st"
    by simp_all
  from insertCorner_Some [OF i]
  have c: "\<And>f. sticker f 4 st' = sticker f 4 x"
    by (simp add: center_cornerSearch)
  from a b [of FFront] have "sticker FFront 4 st = fc" by simp
  moreover from b c have "\<forall>f. sticker f 4 st' = sticker f 4 st" by simp
  ultimately show ?thesis by simp
qed

lemma solveWhiteCorners_None: "solveWhiteCorners st = None"
proof (cases "solveCorner (''R'', ''G'') st")
  case None
  then show ?thesis by (simp add: solveWhiteCorners_def cornersToSolve_def)
next
  case (Some st1)
  from solveCorner_Some [OF Some] have c1: "sticker FFront 4 st1 = ''R''" by simp
  have "solveCorner (''B'', ''R'') st1 = None"
  proof (cases "solveCorner (''B'', ''R'') st1")
    case None
    then show ?thesis .
  next
    case (Some st2)
    from solveCorner_Some [OF Some] c1 show ?thesis by simp
  qed
  with Some show ?thesis by (simp add: solveWhiteCorners_def cornersToSolve_def)
qed

lemma solve_unsolved: "\<not> isSolved st \<Longrightarrow> solve st = None"
  by (simp add: solve_def solveWhiteCorners_None)

lemma solve_solved: "isSolved st \<Longrightarrow> solve st = Some []"
  by (simp add: solve_def)

lemma solve_Some: "solve st = Some sol \<Longrightarrow> isSolved st \<and> sol = []"
  by (cases "isSolved st") (simp_all add: solve_unsolved solve_solved)

lemma isSolved_solvedState: "isSolved (newSolver solvedState)"
  by (simp add: isSolved_def newSolver_def solvedState_def sticker_def facelet_def allFaces_def
        eval_nat_numeral)

lemma F2_state:
  "executeAlgorithm ''F2'' solvedState =
     \<lparr>up = [''W'', ''W'', ''W'', ''W'', ''W'', ''W'', ''Y'', ''Y'', ''Y''],
      down = [''W'', ''W'', ''W'', ''Y'', ''Y'', ''Y'', ''Y'', ''Y'', ''Y''],
      front = replicate 9 ''R'', back = replicate 9 ''O'',
      left = [''G'', ''G'', ''B'', ''G'', ''G'', ''B'', ''G'', ''G'', ''B''],
      right = [''G'', ''B'', ''B'', ''G'', ''B'', ''B'', ''G'', ''B'', ''B'']\<rparr>"
  by (simp add: executeAlgorithm_def tokens_def applyToken_def move_def cycles_def
        includesChar_def toUpperCase_def performMove_def performF_def engine_defs
        solvedState_def eval_nat_numeral)

lemma F2_unsolved: "\<not> isSolved (newSolver (executeAlgorithm ''F2'' solvedState))"
  by (simp add: F2_state isSolved_def newSolver_def sticker_def facelet_def allFaces_def)

lemma execute_U_pow_swap:
  "(execute ''U'' ^^ k) (execute ''U'' st) = (execute ''U'' ^^ Suc k) st"
  by (simp add: funpow_swap1)

lemma crossSearch_bound: "\<exists>k\<le>n. crossSearch n color st = (execute ''U'' ^^ k) st"
proof (induction n arbitrary: st)
  case 0
  show ?case by simp
next
  case (Suc n)
  show ?case
  proof (cases "crossEdgeFound color st")
    case True
    then have "crossSearch (Suc n) color st = (execute ''U'' ^^ 0) st" by simp
    then show ?thesis by blast
  next
    case False
    from Suc [of "execute ''U'' st"] obtain k where k: "k \<le> n"
      and e: "crossSearch n color (execute ''U'' st) = (execute ''U'' ^^ k) (execute ''U'' st)"
      by blast
    from False e have "crossSearch (Suc n) color st = (execute ''U'' ^^ Suc k) st"
      by (simp add: funpow_swap1)
    with k show ?thesis by (metis Suc_le_mono)
  qed
qed

lemma cornerSearch_bound: "\<exists>k\<le>n. cornerSearch n fc lc st = (execute ''U'' ^^ k) st"
proof (induction n arbitrary: st)
  case 0
  show ?case by simp
next
  case (Suc n)
  define found where
    "found \<longleftrightarrow>
       white \<in> set [sticker FUp 8 st, sticker FFront 2 st, sticker FRight 0 st] \<and>
       fc \<in> set [sticker FUp 8 st, sticker FFront 2 st, sticker FRight 0 st] \<and>
       lc \<in> set [sticker FUp 8 st, sticker FFront 2 st, sticker FRight 0 st]"
  have eq: "cornerSearch (Suc n) fc lc st =
            (if found then st else cornerSearch n fc lc (execute ''U'' st))"
    by (simp add: found_def Let_def)
  show ?case
  proof (cases found)
    case True
    with eq have "cornerSearch (Suc n) fc lc st = (execute ''U'' ^^ 0) st" by simp
    then show ?thesis by blast
  next
    case False
    from Suc [of "execute ''U'' st"] obtain k where k: "k \<le> n"
      and e: "cornerSearch n fc lc (execute ''U'' st) = (execute ''U'' ^^ k) (execute ''U'' st)"
      by blast
    from False e eq have "cornerSearch (Suc n) fc lc st = (execute ''U'' ^^ Suc k) st"
      by (simp add: funpow_swap1)
    with k show ?thesis by (metis Suc_le_mono)
  qed
qed

lemma findTopEdge_bound: "\<exists>k\<le>n. snd (findTopEdge n st) = (execute ''U'' ^^ k) st"
proof (induction n arbitrary: st)
  case 0
  show ?case by simp
next
  case (Suc n)
  show ?case
  proof (cases "sticker FUp 7 st \<noteq> yellow \<and> sticker FFront 1 st \<noteq> yellow")
    case True
    then have "snd (findTopEdge (Suc n) st) = (execute ''U'' ^^ 0) st" by simp
    then show ?thesis by blast
  next
    case False
    from Suc [of "execute ''U'' st"] obtain k where k: "k \<le> n"
      and e: "snd (findTopEdge n (execute ''U'' st)) = (execute ''U'' ^^ k) (execute ''U'' st)"
      by blast
    from False e have "snd (findTopEdge (Suc n) st) = (execute ''U'' ^^ Suc k) st"
      by (auto simp: funpow_swap1)
    with k show ?thesis by (metis Suc_le_mono)
  qed
qed

lemma orientCorner_bound:
  "\<exists>k\<le>n. orientCorner n st = (execute algInsertCorner ^^ k) st"
proof (induction n arbitrary: st)
  case 0
  show ?case by simp
next
  case (Suc n)
  let ?st = "execute algInsertCorner st"
  show ?case
  proof (cases "sticker FUp 8 ?st = ''Y''")
    case True
    then have "orientCorner (Suc n) st = (execute algInsertCorner ^^ Suc 0) st"
      by (simp add: Let_def)
    then show ?thesis by (metis Suc_le_mono le0)
  next
    case False
    from Suc [of ?st] obtain k where k: "k \<le> n"
      and e: "orientCorner n ?st = (execute algInsertCorner ^^ k) ?st"
      by blast
    from False e have "orientCorner (Suc n) st = (execute algInsertCorner ^^ Suc k) st"
      by (simp add: funpow_swap1 Let_def)
    with k show ?thesis by (metis Suc_le_mono)
  qed
qed

lemma R_state:
  "executeAlgorithm ''R'' solvedState =
     \<lparr>up = [''W'', ''W'', ''R'', ''W'', ''W'', ''R'', ''W'', ''W'', ''R''],
      down = [''Y'', ''Y'', ''O'', ''Y'', ''Y'', ''O'', ''Y'', ''Y'', ''O''],
      front = [''R'', ''R'', ''Y'', ''R'', ''R'', ''Y'', ''R'', ''R'', ''Y''],
      back = [''W'', ''O'', ''O'', ''W'', ''O'', ''O'', ''W'', ''O'', ''O''],
      left = replicate 9 ''G'', right = replicate 9 ''B''\<rparr>"
  by (simp add: executeAlgorithm_def tokens_def applyToken_def move_def cycles_def
        includesChar_def toUpperCase_def performMove_def performR_def engine_defs
        solvedState_def eval_nat_numeral)

lemma R_unsolved: "\<not> isSolved (newSolver (executeAlgorithm ''R'' solvedState))"
  by (simp add: R_state isSolved_def newSolver_def sticker_def facelet_def allFaces_def)

lemma workerReply_Some:
  "workerReply c = Some r \<longleftrightarrow> (\<exists>sol. solve (newSolver c) = Some sol \<and> r = (sol, length sol))"
  by (auto simp: workerReply_def)

lemma middleLoop_Suc:
  "middleLoop (Suc n) st =
     (if middleSolved st then Some st else Option.bind (middleAttempt st) (middleLoop n))"
  by (simp add: middleAttempt_def insertTopEdge_def Let_def split: option.split)

lemma middleLoop_bound: "\<exists>k\<le>n. middleLoop n st = repeated k middleAttempt st"
proof (induction n arbitrary: st)
  case 0
  have "middleLoop 0 st = repeated 0 middleAttempt st" by simp
  then show ?case by blast
next
  case (Suc n)
  show ?case
  proof (cases "middleSolved st")
    case True
    then have "middleLoop (Suc n) st = repeated 0 middleAttempt st"
      by (simp only: middleLoop_Suc repeated.simps if_True)
    then show ?thesis by blast
  next
    case unsolved: False
    show ?thesis
    proof (cases "middleAttempt st")
      case None
      with unsolved have "middleLoop (Suc n) st = repeated (Suc 0) middleAttempt st"
        by (simp only: middleLoop_Suc repeated.simps if_False bind.simps)
      then show ?thesis by (metis Suc_le_mono le0)
    next
      case (Some st1)
      from Suc [of st1] obtain k where k: "k \<le> n"
        and e: "middleLoop n st1 = repeated k middleAttempt st1" by blast
      from unsolved Some e have "middleLoop (Suc n) st = repeated (Suc k) middleAttempt st"
        by (simp only: middleLoop_Suc repeated.simps if_False bind.simps)
      with k show ?thesis by (metis Suc_le_mono)
    qed
  qed
qed

lemma middleAttempt_bound:
  "\<exists>k\<le>4. \<exists>edgeFound. middleAttempt st = insertTopEdge edgeFound ((execute ''U'' ^^ k) st)"
proof -
  from findTopEdge_bound [of 4 st] obtain k where k: "k \<le> 4"
    and e: "snd (findTopEdge 4 st) = (execute ''U'' ^^ k) st" by blast
  have "middleAttempt st = insertTopEdge (fst (findTopEdge 4 st)) ((execute ''U'' ^^ k) st)"
    by (simp only: middleAttempt_def Let_def e)
  with k show ?thesis by blast
qed

lemma countCorrect_snd: "snd (countCorrect n c st) = (execute ''y'' ^^ n) st"
  by (induction n arbitrary: c st) (simp_all add: funpow_swap1)

lemma edgesLoop_Suc:
  "edgesLoop (Suc n) st =
     (if fst (countCorrect 4 0 st) = 4 then Some ((execute ''y'' ^^ 4) st)
      else Option.bind (edgesAttempt st) (edgesLoop n))"
proof -
  have "edgesLoop (Suc n) st =
     (if fst (countCorrect 4 0 st) = 4 then Some (snd (countCorrect 4 0 st))
      else Option.bind (Option.bind (rotateToBackEdge (snd (countCorrect 4 0 st)))
             (\<lambda>st. Some (execute algYellowEdges st))) (edgesLoop n))"
    by (simp add: Let_def split: option.split)
  then show ?thesis by (simp only: countCorrect_snd edgesAttempt_def)
qed

lemma edgesLoop_bound:
  "\<exists>k\<le>n. edgesLoop n st = repeated k edgesAttempt st \<or>
          edgesLoop n st =
            Option.bind (repeated k edgesAttempt st) (\<lambda>st. Some ((execute ''y'' ^^ 4) st))"
proof (induction n arbitrary: st)
  case 0
  have "edgesLoop 0 st = repeated 0 edgesAttempt st" by simp
  then show ?case by blast
next
  case (Suc n)
  show ?case
  proof (cases "fst (countCorrect 4 0 st) = 4")
    case True
    then have "edgesLoop (Suc n) st =
               Option.bind (repeated 0 edgesAttempt st) (\<lambda>st. Some ((execute ''y'' ^^ 4) st))"
      by (subst edgesLoop_Suc) simp
    then show ?thesis by blast
  next
    case count: False
    show ?thesis
    proof (cases "edgesAttempt st")
      case None
      with count have "edgesLoop (Suc n) st = repeated (Suc 0) edgesAttempt st"
        by (simp only: edgesLoop_Suc repeated.simps if_False bind.simps)
      then show ?thesis by (metis Suc_le_mono le0)
    next
      case (Some st1)
      from Suc [of st1] obtain k where k: "k \<le> n"
        and e: "edgesLoop n st1 = repeated k edgesAttempt st1 \<or>
                edgesLoop n st1 =
                  Option.bind (repeated k edgesAttempt st1)
                    (\<lambda>st. Some ((execute ''y'' ^^ 4) st))" by blast
      from count Some e
      have "edgesLoop (Suc n) st = repeated (Suc k) edgesAttempt st \<or>
            edgesLoop (Suc n) st =
              Option.bind (repeated (Suc k) edgesAttempt st)
                (\<lambda>st. Some ((execute ''y'' ^^ 4) st))"
        by (simp only: edgesLoop_Suc repeated.simps if_False bind.simps)
      with k show ?thesis by (metis Suc_le_mono)
    qed
  qed
qed

lemma alignYellowEdge_bound: "\<exists>k\<le>n. alignYellowEdge n st = (execute ''U'' ^^ k) st"
proof (induction n arbitrary: st)
  case 0
  show ?case by simp
next
  case (Suc n)
  show ?case
  proof (cases "sticker FFront 1 st = sticker FFront 4 st")
    case True
    then have "alignYellowEdge (Suc n) st = (execute ''U'' ^^ 0) st" by simp
    then show ?thesis by blast
  next
    case False
    from Suc [of "execute ''U'' st"] obtain k where k: "k \<le> n"
      and e: "alignYellowEdge n (execute ''U'' st) = (execute ''U'' ^^ k) (execute ''U'' st)"
      by blast
    from False e have "alignYellowEdge (Suc n) st = (execute ''U'' ^^ Suc k) st"
      by (simp add: funpow_swap1)
    with k show ?thesis by (metis Suc_le_mono)
  qed
qed

lemma positionYellowEdges_bound:
  "\<exists>j\<le>4. \<exists>k\<le>5.
     positionYellowEdges st = repeated k edgesAttempt ((execute ''U'' ^^ j) st) \<or>
     positionYellowEdges st =
       Option.bind (repeated k edgesAttempt ((execute ''U'' ^^ j) st))
         (\<lambda>st. Some ((execute ''y'' ^^ 4) st))"
proof -
  from alignYellowEdge_bound [of 4 st] obtain j where j: "j \<le> 4"
    and e: "alignYellowEdge 4 st = (execute ''U'' ^^ j) st" by blast
  from edgesLoop_bound [of 5 "(execute ''U'' ^^ j) st"] j e show ?thesis
    unfolding positionYellowEdges_def by metis
qed

lemma cornersPositionedFrom_bound:
  "\<exists>k\<le>n. snd (cornersPositionedFrom n st) = (execute ''y'' ^^ k) st"
proof (induction n arbitrary: st)
  case 0
  show ?case by simp
next
  case (Suc n)
  define stop where
    "stop \<longleftrightarrow>
       card (set [sticker FFront 4 st, sticker FRight 4 st, ''Y'']) \<noteq> 3 \<or>
       card (set [sticker FFront 2 st, sticker FRight 0 st, sticker FUp 8 st]) \<noteq> 3 \<or>
       filter (\<lambda>x. x \<notin> set [sticker FFront 2 st, sticker FRight 0 st, sticker FUp 8 st])
         [sticker FFront 4 st, sticker FRight 4 st, ''Y''] \<noteq> []"
  have eq: "cornersPositionedFrom (Suc n) st =
            (if stop then (False, st) else cornersPositionedFrom n (execute ''y'' st))"
    by (simp add: stop_def Let_def)
  show ?case
  proof (cases stop)
    case True
    with eq have "snd (cornersPositionedFrom (Suc n) st) = (execute ''y'' ^^ 0) st" by simp
    then show ?thesis by blast
  next
    case False
    from Suc [of "execute ''y'' st"] obtain k where k: "k \<le> n"
      and e: "snd (cornersPositionedFrom n (execute ''y'' st)) =
              (execute ''y'' ^^ k) (execute ''y'' st)" by blast
    from False e eq have "snd (cornersPositionedFrom (Suc n) st) = (execute ''y'' ^^ Suc k) st"
      by (simp add: funpow_swap1)
    with k show ?thesis by (metis Suc_le_mono)
  qed
qed

lemma areCornersPositioned_bound:
  "\<exists>k\<le>4. snd (areCornersPositioned st) = (execute ''y'' ^^ k) st"
  unfolding areCornersPositioned_def by (rule cornersPositionedFrom_bound)

lemma tokens_U: "tokens ''U'' = [''U'']"
  by (simp add: tokens_single)

lemma tokens_F2: "tokens ''F2'' = [''F2'']"
  by (simp add: tokens_single)

lemma tokens_y: "tokens ''y'' = [''y'']"
  by (simp add: tokens_single)

lemma solution_U_pow:
  "solution ((execute ''U'' ^^ k) st) = solution st @ replicate k ''U''"
proof (induction k)
  case 0
  show ?case by simp
next
  case (Suc k)
  have "replicate k ''U'' @ [''U''] = ''U'' # replicate k ''U''"
    by (simp add: replicate_append_same)
  with Suc show ?case by (simp add: execute_def tokens_U)
qed

lemma solveWhiteCross_bound:
  "\<exists>k1\<le>20. \<exists>k2\<le>20. \<exists>k3\<le>20. \<exists>k4\<le>20.
     solveWhiteCross st =
       execute ''F2'' ((execute ''U'' ^^ k4)
         (execute ''F2'' ((execute ''U'' ^^ k3)
           (execute ''F2'' ((execute ''U'' ^^ k2)
             (execute ''F2'' ((execute ''U'' ^^ k1) st)))))))"
proof -
  from crossSearch_bound [of 20 "''R''" st] obtain k1 where k1: "k1 \<le> 20"
    and e1: "crossSearch 20 ''R'' st = (execute ''U'' ^^ k1) st" by blast
  let ?s1 = "execute ''F2'' ((execute ''U'' ^^ k1) st)"
  from crossSearch_bound [of 20 "''B''" ?s1] obtain k2 where k2: "k2 \<le> 20"
    and e2: "crossSearch 20 ''B'' ?s1 = (execute ''U'' ^^ k2) ?s1" by blast
  let ?s2 = "execute ''F2'' ((execute ''U'' ^^ k2) ?s1)"
  from crossSearch_bound [of 20 "''O''" ?s2] obtain k3 where k3: "k3 \<le> 20"
    and e3: "crossSearch 20 ''O'' ?s2 = (execute ''U'' ^^ k3) ?s2" by blast
  let ?s3 = "execute ''F2'' ((execute ''U'' ^^ k3) ?s2)"
  from crossSearch_bound [of 20 "''G''" ?s3] obtain k4 where k4: "k4 \<le> 20"
    and e4: "crossSearch 20 ''G'' ?s3 = (execute ''U'' ^^ k4) ?s3" by blast
  have "solveWhiteCross st = execute ''F2'' ((execute ''U'' ^^ k4) ?s3)"
    by (simp only: solveWhiteCross_def foldl.simps e1 e2 e3 e4)
  with k1 k2 k3 k4 show ?thesis by blast
qed

lemma solveWhiteCross_log_length:
  "length (solution (solveWhiteCross st)) \<le> length (solution st) + 84"
proof -
  from solveWhiteCross_bound [of st] obtain k1 k2 k3 k4
    where k: "k1 \<le> 20" "k2 \<le> 20" "k3 \<le> 20" "k4 \<le> 20"
    and e: "solveWhiteCross st =
       execute ''F2'' ((execute ''U'' ^^ k4)
         (execute ''F2'' ((execute ''U'' ^^ k3)
           (execute ''F2'' ((execute ''U'' ^^ k2)
             (execute ''F2'' ((execute ''U'' ^^ k1) st)))))))" by blast
  have "length (solution (solveWhiteCross st)) = length (solution st) + k1 + k2 + k3 + k4 + 4"
    by (simp add: e execute_def [of "''F2''"] tokens_F2 solution_U_pow)
  with k show ?thesis by simp
qed

lemma solveCorner_bound:
  "\<exists>k\<le>5. solveCorner (frontColor, leftColor) st =
     Option.bind (rotateToSlot frontColor leftColor st)
       (\<lambda>st. insertCorner frontColor ((execute ''U'' ^^ k) st))"
proof (cases "rotateToSlot frontColor leftColor st")
  case None
  then have "solveCorner (frontColor, leftColor) st =
     Option.bind (rotateToSlot frontColor leftColor st)
       (\<lambda>st. insertCorner frontColor ((execute ''U'' ^^ 0) st))"
    by (simp add: solveCorner_def)
  then show ?thesis by blast
next
  case (Some st1)
  from cornerSearch_bound [of 5 frontColor leftColor st1] obtain k where k: "k \<le> 5"
    and e: "cornerSearch 5 frontColor leftColor st1 = (execute ''U'' ^^ k) st1" by blast
  from Some e have "solveCorner (frontColor, leftColor) st =
     Option.bind (rotateToSlot frontColor leftColor st)
       (\<lambda>st. insertCorner frontColor ((execute ''U'' ^^ k) st))"
    by (simp add: solveCorner_def)
  with k show ?thesis by blast
qed

lemma lShape_bound:
  "\<exists>j\<le>n. \<exists>b\<le>1. lShape n st = (execute algYellowCross ^^ b) ((execute ''U'' ^^ j) st)"
proof (induction n arbitrary: st)
  case 0
  have "lShape 0 st = (execute algYellowCross ^^ 0) ((execute ''U'' ^^ 0) st)" by simp
  then show ?case by blast
next
  case (Suc n)
  show ?case
  proof (cases "isUp 3 st \<and> isUp 7 st")
    case True
    then have "lShape (Suc n) st = (execute algYellowCross ^^ 1) ((execute ''U'' ^^ 0) st)"
      by simp
    then show ?thesis by (metis le0 le_refl)
  next
    case False
    from Suc [of "execute ''U'' st"] obtain j b where j: "j \<le> n" and b: "b \<le> 1"
      and e: "lShape n (execute ''U'' st) =
              (execute algYellowCross ^^ b) ((execute ''U'' ^^ j) (execute ''U'' st))" by blast
    from False e
    have "lShape (Suc n) st = (execute algYellowCross ^^ b) ((execute ''U'' ^^ Suc j) st)"
      by (auto simp: funpow_swap1)
    with j b show ?thesis by (metis Suc_le_mono)
  qed
qed

lemma lineShape_bound:
  "\<exists>j\<le>n. \<exists>b\<le>1. lineShape n st = (execute algYellowCross ^^ b) ((execute ''U'' ^^ j) st)"
proof (induction n arbitrary: st)
  case 0
  have "lineShape 0 st = (execute algYellowCross ^^ 0) ((execute ''U'' ^^ 0) st)" by simp
  then show ?case by blast
next
  case (Suc n)
  show ?case
  proof (cases "isUp 3 st \<and> isUp 5 st")
    case True
    then have "lineShape (Suc n) st = (execute algYellowCross ^^ 1) ((execute ''U'' ^^ 0) st)"
      by simp
    then show ?thesis by (metis le0 le_refl)
  next
    case False
    from Suc [of "execute ''U'' st"] obtain j b where j: "j \<le> n" and b: "b \<le> 1"
      and e: "lineShape n (execute ''U'' st) =
              (execute algYellowCross ^^ b) ((execute ''U'' ^^ j) (execute ''U'' st))" by blast
    from False e
    have "lineShape (Suc n) st = (execute algYellowCross ^^ b) ((execute ''U'' ^^ Suc j) st)"
      by (auto simp: funpow_swap1)
    with j b show ?thesis by (metis Suc_le_mono)
  qed
qed

lemma solveYellowCross_bound:
  "\<exists>a\<le>1. \<exists>j\<le>4. \<exists>b\<le>1. \<exists>k\<le>2. \<exists>c\<le>1.
     solveYellowCross st =
       (execute algYellowCross ^^ c) ((execute ''U'' ^^ k)
         ((execute algYellowCross ^^ b) ((execute ''U'' ^^ j)
           ((execute algYellowCross ^^ a) st))))"
proof -
  define yellowCount where
    "yellowCount = length (filter (\<lambda>b. b) [isUp 1 st, isUp 3 st, isUp 5 st, isUp 7 st])"
  show ?thesis
  proof (cases "yellowCount = 4")
    case True
    then have "solveYellowCross st =
       (execute algYellowCross ^^ 0) ((execute ''U'' ^^ 0)
         ((execute algYellowCross ^^ 0) ((execute ''U'' ^^ 0)
           ((execute algYellowCross ^^ 0) st))))"
      by (simp add: solveYellowCross_def yellowCount_def Let_def)
    then show ?thesis by (metis le0)
  next
    case False
    define a :: nat where "a = (if yellowCount = 0 then 1 else 0)"
    let ?s1 = "(execute algYellowCross ^^ a) st"
    have a: "a \<le> 1" by (simp add: a_def)
    from False have s: "solveYellowCross st = lineShape 2 (lShape 4 ?s1)"
      by (simp add: solveYellowCross_def yellowCount_def Let_def a_def)
    from lShape_bound [of 4 ?s1] obtain j b where j: "j \<le> 4" and b: "b \<le> 1"
      and e1: "lShape 4 ?s1 = (execute algYellowCross ^^ b) ((execute ''U'' ^^ j) ?s1)"
      by blast
    let ?s2 = "(execute algYellowCross ^^ b) ((execute ''U'' ^^ j) ?s1)"
    from lineShape_bound [of 2 ?s2] obtain k c where k: "k \<le> 2" and c: "c \<le> 1"
      and e2: "lineShape 2 ?s2 = (execute algYellowCross ^^ c) ((execute ''U'' ^^ k) ?s2)"
      by blast
    from s e1 e2 have "solveYellowCross st =
        (execute algYellowCross ^^ c) ((execute ''U'' ^^ k) ?s2)" by simp
    with a j b k c show ?thesis by blast
  qed
qed

lemma orientYellowCorners_bound:
  "\<exists>k\<le>4. orientYellowCorners st =
     (if length (filter (\<lambda>c. c = ''Y'') (up (cube st))) \<noteq> 9
      then orientYellowCorners (execute ''U'' ((execute algInsertCorner ^^ k) st))
      else Some st)"
proof (cases "sticker FUp 8 st \<noteq> ''Y''")
  case True
  from orientCorner_bound [of 4 st] obtain k where k: "k \<le> 4"
    and e: "orientCorner 4 st = (execute algInsertCorner ^^ k) st" by blast
  from True e have "orientYellowCorners st =
     (if length (filter (\<lambda>c. c = ''Y'') (up (cube st))) \<noteq> 9
      then orientYellowCorners (execute ''U'' ((execute algInsertCorner ^^ k) st))
      else Some st)"
    by (subst orientYellowCorners.simps) simp
  with k show ?thesis by blast
next
  case False
  then have "orientYellowCorners st =
     (if length (filter (\<lambda>c. c = ''Y'') (up (cube st))) \<noteq> 9
      then orientYellowCorners (execute ''U'' ((execute algInsertCorner ^^ 0) st))
      else Some st)"
    by (subst orientYellowCorners.simps) simp
  then show ?thesis by blast
qed

lemma logToken_cases:
  "logToken m \<longleftrightarrow> (\<exists>f\<in>set logLetters. m = [f] \<or> m = [f, CHR 0x27] \<or> m = [f, CHR ''2''])"
  by (auto simp: logToken_def split: list.splits)

lemma moveToken_logToken: "moveToken m \<Longrightarrow> logToken m"
  by (auto simp: moveToken_cases logToken_cases faceLetters_def logLetters_def)





































lemma execute_y: "execute ''y'' st = st\<lparr>solution := solution st @ [''y'']\<rparr>"
  using y_not_face by (simp add: execute_def executeAlgorithm_def tokens_y applyToken_other)

lemma cube_y_pow: "cube ((execute ''y'' ^^ k) st) = cube st"
  by (induction k) (simp_all add: execute_y)





section \<open>Properties of the heap model\<close>

lemma length_hAssign: "length (hAssign r f i v h) = length h"
  by (simp add: hAssign_def)

lemma length_hRotateFace: "length (hRotateFace r f clockwise h) = length h"
  by (simp add: hRotateFace_def)

lemma hAssign_other: "a \<notin> range r \<Longrightarrow> hAssign r f i v h ! a = h ! a"
proof -
  assume "a \<notin> range r"
  then have "r f \<noteq> a" by blast
  then show ?thesis by (simp add: hAssign_def)
qed

lemma hRotateFace_other: "a \<notin> range r \<Longrightarrow> hRotateFace r f clockwise h ! a = h ! a"
proof -
  assume "a \<notin> range r"
  then have "r f \<noteq> a" by blast
  then show ?thesis by (simp add: hRotateFace_def)
qed

lemmas heap_frame = length_hAssign length_hRotateFace hAssign_other hRotateFace_other Let_def

lemmas hPerform_defs =
  hPerformF_def hPerformB_def hPerformU_def hPerformD_def hPerformL_def hPerformR_def

lemma length_hPerformMove: "length (hPerformMove c r h) = length h"
  by (simp add: hPerformMove_def hPerform_defs heap_frame)

lemma hPerformMove_other: "a \<notin> range r \<Longrightarrow> hPerformMove c r h ! a = h ! a"
  by (simp add: hPerformMove_def hPerform_defs heap_frame)

lemma hMove_frame:
  "length ((hPerformMove c r ^^ n) h) = length h \<and>
   (a \<notin> range r \<longrightarrow> (hPerformMove c r ^^ n) h ! a = h ! a)"
  by (induction n) (simp_all add: length_hPerformMove hPerformMove_other)

lemma hApplyToken_frame:
  "length (hApplyToken m r h) = length h \<and>
   (a \<notin> range r \<longrightarrow> hApplyToken m r h ! a = h ! a)"
  by (simp add: hApplyToken_def hMove_def hMove_frame)

lemma hApplyTokens_frame:
  "length (foldl (\<lambda>h m. hApplyToken m r h) h ms) = length h \<and>
   (a \<notin> range r \<longrightarrow> foldl (\<lambda>h m. hApplyToken m r h) h ms ! a = h ! a)"
  by (induction ms arbitrary: h) (simp_all add: hApplyToken_frame)

lemma hExecuteAlgorithm_frame:
  "length (hExecuteAlgorithm algorithm r h) = length h \<and>
   (a \<notin> range r \<longrightarrow> hExecuteAlgorithm algorithm r h ! a = h ! a)"
  by (simp add: hExecuteAlgorithm_def hApplyTokens_frame)

lemma hExecute_frame:
  "cubeState (hExecute moves st) = cubeState st \<and>
   length (heap (hExecute moves st)) = length (heap st) \<and>
   (a \<notin> range (cubeState st) \<longrightarrow> heap (hExecute moves st) ! a = heap st ! a)"
  by (simp add: hExecute_def hExecuteAlgorithm_frame)

lemma executeAll_frame:
  "cubeState (executeAll algorithms st) = cubeState st \<and>
   length (heap (executeAll algorithms st)) = length (heap st) \<and>
   (a \<notin> range (cubeState st) \<longrightarrow> heap (executeAll algorithms st) ! a = heap st ! a)"
  unfolding executeAll_def
  by (induction algorithms arbitrary: st) (simp_all add: hExecute_frame)

lemma newHeapSolver_heap:
  "heap (newHeapSolver callerState h0) =
     h0 @ map (\<lambda>f. getFace f solvedState) allFaces
        @ map (\<lambda>f. getFace f solvedState) allFaces
        @ map (\<lambda>f. (h0 @ map (\<lambda>f. getFace f solvedState) allFaces
                         @ map (\<lambda>f. getFace f solvedState) allFaces) ! callerState f) allFaces"
  by (simp add: newHeapSolver_def newCubeModel_def deepCopy_def Let_def allFaces_def nth_append)

lemma newHeapSolver_cubeState:
  "cubeState (newHeapSolver callerState h0) = (\<lambda>f. length h0 + 12 + faceIndex f)"
  by (simp add: newHeapSolver_def newCubeModel_def deepCopy_def Let_def allFaces_def fun_eq_iff)

lemma newHeapSolver_old:
  "a < length h0 \<Longrightarrow>
   heap (newHeapSolver callerState h0) ! a = h0 ! a \<and>
   a \<notin> range (cubeState (newHeapSolver callerState h0))"
  by (auto simp: newHeapSolver_heap newHeapSolver_cubeState nth_append)

lemma executeAll_old:
  assumes "a < length h0"
  shows "heap (executeAll algorithms (newHeapSolver callerState h0)) ! a = h0 ! a"
  using executeAll_frame [of algorithms "newHeapSolver callerState h0" a]
    newHeapSolver_old [OF assms, of callerState]
  by simp

lemma loadState_executeAll:
  assumes "\<forall>f. callerState f < length h0"
  shows "loadState callerState (heap (executeAll algorithms (newHeapSolver callerState h0))) =
         loadState callerState h0"
  using assms by (simp add: loadState_def executeAll_old)

lemma faceIndex_less: "faceIndex f < 6"
  by (cases f) simp_all

lemma loadSolver_newHeapSolver:
  assumes "\<forall>f. callerState f < length h0"
  shows "loadSolver (newHeapSolver callerState h0) = newSolver (loadState callerState h0)"
  using assms
  by (simp add: loadSolver_def newSolver_def loadState_def newHeapSolver_cubeState
        newHeapSolver_heap allFaces_def nth_append)
    (simp add: newHeapSolver_def Let_def)

lemmas heap_defs = hFacelet_def hAssign_def hRotateFace_def

lemma load_hPerformF:
  "inj r \<Longrightarrow> \<forall>f. r f < length h \<Longrightarrow> loadState r (hPerformF r h) = performF (loadState r h)"
  by (simp add: loadState_def hPerformF_def performF_def heap_defs engine_defs inj_eq)

lemma load_hPerformB:
  "inj r \<Longrightarrow> \<forall>f. r f < length h \<Longrightarrow> loadState r (hPerformB r h) = performB (loadState r h)"
  by (simp add: loadState_def hPerformB_def performB_def heap_defs engine_defs inj_eq)

lemma load_hPerformU:
  "inj r \<Longrightarrow> \<forall>f. r f < length h \<Longrightarrow> loadState r (hPerformU r h) = performU (loadState r h)"
  by (simp add: loadState_def hPerformU_def performU_def heap_defs engine_defs inj_eq)

lemma load_hPerformD:
  "inj r \<Longrightarrow> \<forall>f. r f < length h \<Longrightarrow> loadState r (hPerformD r h) = performD (loadState r h)"
  by (simp add: loadState_def hPerformD_def performD_def heap_defs engine_defs inj_eq)

lemma load_hPerformL:
  "inj r \<Longrightarrow> \<forall>f. r f < length h \<Longrightarrow> loadState r (hPerformL r h) = performL (loadState r h)"
  by (simp add: loadState_def hPerformL_def performL_def heap_defs engine_defs inj_eq)

lemma load_hPerformR:
  "inj r \<Longrightarrow> \<forall>f. r f < length h \<Longrightarrow> loadState r (hPerformR r h) = performR (loadState r h)"
  by (simp add: loadState_def hPerformR_def performR_def heap_defs engine_defs inj_eq)

lemma load_hPerformMove:
  "inj r \<Longrightarrow> \<forall>f. r f < length h \<Longrightarrow>
   loadState r (hPerformMove c r h) = performMove c (loadState r h)"
  by (simp add: hPerformMove_def performMove_def load_hPerformF load_hPerformB load_hPerformU
        load_hPerformD load_hPerformL load_hPerformR)

lemma load_hMove:
  "inj r \<Longrightarrow> \<forall>f. r f < length h \<Longrightarrow>
   loadState r ((hPerformMove c r ^^ n) h) = (performMove c ^^ n) (loadState r h)"
proof (induction n)
  case 0
  show ?case by simp
next
  case (Suc n)
  from Suc.prems(2) have "\<forall>f. r f < length ((hPerformMove c r ^^ n) h)"
    by (simp add: hMove_frame)
  with Suc show ?case by (simp add: load_hPerformMove)
qed

lemma load_hApplyToken:
  "inj r \<Longrightarrow> \<forall>f. r f < length h \<Longrightarrow>
   loadState r (hApplyToken m r h) = applyToken m (loadState r h)"
  by (simp add: hApplyToken_def applyToken_def hMove_def move_def load_hMove)

lemma load_hApplyTokens:
  "inj r \<Longrightarrow> \<forall>f. r f < length h \<Longrightarrow>
   loadState r (foldl (\<lambda>h m. hApplyToken m r h) h ms) =
     foldl (\<lambda>s m. applyToken m s) (loadState r h) ms"
proof (induction ms arbitrary: h)
  case Nil
  show ?case by simp
next
  case (Cons m ms)
  from Cons.prems(2) have "\<forall>f. r f < length (hApplyToken m r h)"
    by (simp add: hApplyToken_frame)
  from Cons.IH [OF Cons.prems(1) this] Cons.prems show ?case
    by (simp add: load_hApplyToken)
qed

lemma load_hExecuteAlgorithm:
  "inj r \<Longrightarrow> \<forall>f. r f < length h \<Longrightarrow>
   loadState r (hExecuteAlgorithm algorithm r h) = executeAlgorithm algorithm (loadState r h)"
  by (simp add: hExecuteAlgorithm_def executeAlgorithm_def load_hApplyTokens)

lemma loadSolver_hExecute:
  "inj (cubeState st) \<Longrightarrow> \<forall>f. cubeState st f < length (heap st) \<Longrightarrow>
   loadSolver (hExecute moves st) = execute moves (loadSolver st)"
  by (simp add: loadSolver_def hExecute_def execute_def load_hExecuteAlgorithm)

lemma loadSolver_executeAll:
  "inj (cubeState st) \<Longrightarrow> \<forall>f. cubeState st f < length (heap st) \<Longrightarrow>
   loadSolver (executeAll algorithms st) =
     foldl (\<lambda>st moves. execute moves st) (loadSolver st) algorithms"
proof (induction algorithms arbitrary: st)
  case Nil
  show ?case by (simp add: executeAll_def)
next
  case (Cons moves algorithms)
  let ?st = "hExecute moves st"
  from Cons.prems have a: "inj (cubeState ?st)" and b: "\<forall>f. cubeState ?st f < length (heap ?st)"
    by (simp_all add: hExecute_frame)
  from Cons.IH [OF a b] Cons.prems show ?case
    by (simp add: executeAll_def loadSolver_hExecute)
qed

lemma inj_faceIndex: "inj faceIndex"
proof (rule injI)
  fix x y
  assume "faceIndex x = faceIndex y"
  then show "x = y" by (cases x; cases y) simp_all
qed

lemma newHeapSolver_own:
  "inj (cubeState (newHeapSolver callerState h0)) \<and>
   (\<forall>f. cubeState (newHeapSolver callerState h0) f < length (heap (newHeapSolver callerState h0)))"
proof -
  have "inj (\<lambda>f. length h0 + 12 + faceIndex f)"
    using inj_faceIndex by (auto simp: inj_def)
  moreover have "\<forall>f. length h0 + 12 + faceIndex f < length h0 + 18"
    using faceIndex_less by (simp add: less_Suc_eq)
  ultimately show ?thesis
    by (simp add: newHeapSolver_cubeState newHeapSolver_heap allFaces_def)
qed

lemma loadSolver_run:
  assumes "\<forall>f. callerState f < length h0"
  shows "loadSolver (executeAll algorithms (newHeapSolver callerState h0)) =
         foldl (\<lambda>st moves. execute moves st) (newSolver (loadState callerState h0)) algorithms"
  using loadSolver_executeAll [of "newHeapSolver callerState h0" algorithms]
    newHeapSolver_own [of callerState h0] loadSolver_newHeapSolver [OF assms]
  by simp

section \<open>Claims about the cube state engine\<close>

text \<open>
  C6.  For every well-formed cube state and every face letter among U, D, L, R, F, B,
  four consecutive applications of \<open>_performMove\<close> to that face give back the state
  they started from: a face turn has order 4.
\<close>

theorem performMove_order4:
  "f \<in> set faceLetters \<Longrightarrow> wellFormed s \<Longrightarrow>
   performMove f (performMove f (performMove f (performMove f s))) = s"
  by (rule performMove4)

theorem performMove_order4_witness:
  "CHR ''R'' \<in> set faceLetters \<and> wellFormed solvedState \<and>
   performMove CHR ''R'' (performMove CHR ''R'' (performMove CHR ''R''
     (performMove CHR ''R'' solvedState))) = solvedState"
  using performMove_order4 [of "CHR ''R''" solvedState]
  by (simp add: faceLetters_def wellFormed_def solvedState_def)

text \<open>
  C8.  The centre facelet, index 4, of every face array is the same before and after
  \<open>_performMove\<close> of any face string, \<open>_rotateFace\<close> of any face in either
  direction, and \<open>executeAlgorithm\<close> of any algorithm string.
\<close>

theorem center_unchanged:
  "facelet g 4 (performMove f s) = facelet g 4 s \<and>
   facelet g 4 (rotateFace h clockwise s) = facelet g 4 s \<and>
   facelet g 4 (executeAlgorithm algorithm s) = facelet g 4 s"
  by (simp add: center_performMove center_rotateFace center_executeAlgorithm)

theorem center_unchanged_witness:
  "facelet FFront 4 (performMove CHR ''U'' solvedState) = ''R'' \<and>
   facelet FFront 4 (rotateFace FFront False solvedState) = ''R'' \<and>
   facelet FFront 4 (executeAlgorithm ''R U2 F'' solvedState) = ''R''"
  using center_unchanged [of FFront "CHR ''U''" solvedState FFront False "''R U2 F''"]
  by (simp add: facelet_def solvedState_def eval_nat_numeral)

text \<open>
  C2.  A token whose upper-cased first character is not one of U, D, L, R, F, B
  (the whole-cube rotation \<open>y\<close> of the solver is one) is ignored by
  \<open>executeAlgorithm\<close>: the cube state stays as it is.  The solver's \<open>execute\<close>
  nevertheless appends the token to the solution log.
\<close>

theorem ignored_token:
  "m \<noteq> [] \<Longrightarrow> CHR '' '' \<notin> set m \<Longrightarrow> toUpperCase (hd m) \<notin> set faceLetters \<Longrightarrow>
   executeAlgorithm m s = s \<and> cube (execute m st) = cube st \<and>
   solution (execute m st) = solution st @ [m]"
  by (simp add: execute_def executeAlgorithm_def tokens_single applyToken_other)

theorem ignored_token_witness:
  "''y'' \<noteq> [] \<and> CHR '' '' \<notin> set ''y'' \<and> toUpperCase (hd ''y'') \<notin> set faceLetters \<and>
   executeAlgorithm ''y'' solvedState = solvedState \<and>
   cube (execute ''y'' (newSolver solvedState)) = cube (newSolver solvedState) \<and>
   solution (execute ''y'' (newSolver solvedState)) = [''y'']"
  using ignored_token [of "''y''" solvedState "newSolver solvedState"] y_not_face
  by (simp add: newSolver_def)

text \<open>
  C7.  For every well-formed cube state and every algorithm of valid move tokens,
  running the algorithm through \<open>executeAlgorithm\<close> and then its move-wise
  inverse (reverse order, \<open>'\<close>-suffixed and unsuffixed moves swapped, \<open>2\<close>-suffixed
  moves kept) gives back the original state.
\<close>

theorem executeAlgorithm_inverse:
  "list_all moveToken moves \<Longrightarrow> wellFormed s \<Longrightarrow>
   executeAlgorithm (joinMoves (inverseAlgorithm moves)) (executeAlgorithm (joinMoves moves) s) = s"
  using replay_inverse [of moves s] by (simp add: replay_def)

theorem executeAlgorithm_inverse_witness:
  "list_all moveToken [''R'', ''U2'', ''F'' @ [CHR 0x27]] \<and> wellFormed solvedState \<and>
   inverseAlgorithm [''R'', ''U2'', ''F'' @ [CHR 0x27]] = [''F'', ''U2'', ''R'' @ [CHR 0x27]] \<and>
   executeAlgorithm (joinMoves (inverseAlgorithm [''R'', ''U2'', ''F'' @ [CHR 0x27]]))
     (executeAlgorithm (joinMoves [''R'', ''U2'', ''F'' @ [CHR 0x27]]) solvedState) = solvedState"
  using executeAlgorithm_inverse [of "[''R'', ''U2'', ''F'' @ [CHR 0x27]]" solvedState]
  by (simp add: moveToken_def faceLetters_def wellFormed_def solvedState_def
        inverseAlgorithm_def invertMove_def endsWith_def)

text \<open>
  C5.  For every list of valid move tokens and every well-formed starting state,
  replaying the list and replaying \<open>simplifyMoves\<close> of the list through
  \<open>executeAlgorithm\<close> end in the same state.
\<close>

theorem simplifyMoves_same_effect:
  "list_all moveToken moves \<Longrightarrow> wellFormed s \<Longrightarrow>
   executeAlgorithm (joinMoves (simplifyMoves moves)) s = executeAlgorithm (joinMoves moves) s"
  using replay_simplifyMoves [of moves s] by (simp add: replay_def)

theorem simplifyMoves_same_effect_witness:
  "list_all moveToken [''R'', ''R'', ''U''] \<and> wellFormed solvedState \<and>
   executeAlgorithm (joinMoves (simplifyMoves [''R'', ''R'', ''U''])) solvedState =
     executeAlgorithm (joinMoves [''R'', ''R'', ''U'']) solvedState"
  using simplifyMoves_same_effect [of "[''R'', ''R'', ''U'']" solvedState]
  by (simp add: moveToken_def faceLetters_def wellFormed_def solvedState_def)

section \<open>Claims about the solver\<close>

text \<open>
  C10.  If the input cube state is already solved, that is \<open>isSolved()\<close> holds of the
  solver built on it, then \<open>solve()\<close> returns the empty move sequence at once and
  the worker reports move count 0.
\<close>

theorem solve_already_solved:
  "isSolved (newSolver c) \<Longrightarrow>
   solve (newSolver c) = Some [] \<and> workerReply c = Some ([], 0)"
  by (simp add: solve_solved workerReply_def)

theorem solve_already_solved_witness:
  "isSolved (newSolver solvedState) \<and>
   solve (newSolver solvedState) = Some [] \<and> workerReply solvedState = Some ([], 0)"
  using solve_already_solved [of solvedState] isSolved_solvedState by simp




text \<open>
  C3.  The claim: from the solved state with \<open>F2\<close> applied, \<open>solve()\<close> returns a
  solution whose replay solves the cube.  The code: the cross phase finds every
  edge at once and plays \<open>F2\<close> four times, then the corner phase waits for the
  centres to read front \<open>R\<close>, right \<open>G\<close> by issuing \<open>y\<close>, which
  \<open>executeAlgorithm\<close> ignores; the loop never ends and \<open>solve()\<close> returns nothing.
\<close>

theorem solve_F2_never_returns:
  "solve (newSolver (executeAlgorithm ''F2'' solvedState)) = None"
  using F2_unsolved by (rule solve_unsolved)

theorem solve_F2_never_returns_witness:
  "\<not> isSolved (newSolver (executeAlgorithm ''F2'' solvedState)) \<and>
   solve (newSolver (executeAlgorithm ''F2'' solvedState)) \<noteq> Some [''F2'']"
  using solve_F2_never_returns F2_unsolved by simp

text \<open>
  C1, as stated, fails: on the solved state with \<open>R\<close> applied \<open>solve()\<close> does not
  return.
\<close>

theorem solve_R_never_returns:
  "solve (newSolver (executeAlgorithm ''R'' solvedState)) = None"
  using R_unsolved by (rule solve_unsolved)

text \<open>
  C1, amended.  Every phase loop that carries a counter runs at most its fixed
  number of iterations and is left when the count is used up, whether or not
  its goal is met.  The cross phase plays at most 20 \<open>U\<close> turns before each of its
  four \<open>F2\<close>, so it always returns, with at most 84 tokens logged.  A corner is
  searched with at most 5 \<open>U\<close> turns.  The middle layer makes at most 12
  attempts, each searching the top layer with at most 4 \<open>U\<close> turns.  The yellow
  cross plays at most 4 and then at most 2 \<open>U\<close> turns around its algorithm, and
  always returns.  The yellow edges are aligned with at most 4 \<open>U\<close> turns and
  get at most 5 attempts, each counting with 4 \<open>y\<close> rotations.  The corner check
  rotates at most 4 times, and a corner is oriented with at most 4 repetitions
  of \<open>R' D' R D\<close>.  (The \<open>while\<close> loops of the phases have no counter.)
\<close>

theorem counter_loops_bounded:
  "(\<exists>k1\<le>20. \<exists>k2\<le>20. \<exists>k3\<le>20. \<exists>k4\<le>20.
      solveWhiteCross st =
        execute ''F2'' ((execute ''U'' ^^ k4)
          (execute ''F2'' ((execute ''U'' ^^ k3)
            (execute ''F2'' ((execute ''U'' ^^ k2)
              (execute ''F2'' ((execute ''U'' ^^ k1) st)))))))) \<and>
   length (solution (solveWhiteCross st)) \<le> length (solution st) + 84 \<and>
   (\<exists>k\<le>5. solveCorner (frontColor, leftColor) st =
      Option.bind (rotateToSlot frontColor leftColor st)
        (\<lambda>st. insertCorner frontColor ((execute ''U'' ^^ k) st))) \<and>
   (\<exists>k\<le>12. solveMiddleLayer st = repeated k middleAttempt st) \<and>
   (\<exists>k\<le>4. \<exists>edgeFound.
      middleAttempt st = insertTopEdge edgeFound ((execute ''U'' ^^ k) st)) \<and>
   (\<exists>a\<le>1. \<exists>j\<le>4. \<exists>b\<le>1. \<exists>k\<le>2. \<exists>c\<le>1.
      solveYellowCross st =
        (execute algYellowCross ^^ c) ((execute ''U'' ^^ k)
          ((execute algYellowCross ^^ b) ((execute ''U'' ^^ j)
            ((execute algYellowCross ^^ a) st))))) \<and>
   (\<exists>j\<le>4. \<exists>k\<le>5.
      positionYellowEdges st = repeated k edgesAttempt ((execute ''U'' ^^ j) st) \<or>
      positionYellowEdges st =
        Option.bind (repeated k edgesAttempt ((execute ''U'' ^^ j) st))
          (\<lambda>st. Some ((execute ''y'' ^^ 4) st))) \<and>
   (\<exists>k\<le>4. snd (areCornersPositioned st) = (execute ''y'' ^^ k) st) \<and>
   (\<exists>k\<le>4. orientYellowCorners st =
      (if length (filter (\<lambda>c. c = ''Y'') (up (cube st))) \<noteq> 9
       then orientYellowCorners (execute ''U'' ((execute algInsertCorner ^^ k) st))
       else Some st))"
  using solveWhiteCross_bound [of st] solveWhiteCross_log_length [of st]
    solveCorner_bound [of frontColor leftColor st]
    middleLoop_bound [of 12 st] middleAttempt_bound [of st]
    solveYellowCross_bound [of st] positionYellowEdges_bound [of st]
    areCornersPositioned_bound [of st] orientYellowCorners_bound [of st]
  unfolding solveMiddleLayer_def
  by (intro conjI) assumption+

theorem counter_loops_bounded_witness:
  "length (solution (solveWhiteCross (newSolver solvedState))) \<le> 84 \<and>
   (\<exists>k\<le>12. solveMiddleLayer (newSolver solvedState) =
      repeated k middleAttempt (newSolver solvedState)) \<and>
   (\<exists>k\<le>4. snd (areCornersPositioned (newSolver solvedState)) =
      (execute ''y'' ^^ k) (newSolver solvedState))"
  using counter_loops_bounded [of "newSolver solvedState" "''R''" "''G''"]
  by (simp add: newSolver_def)

section \<open>Claim about the caller's cube\<close>

text \<open>
  C9.  Constructing a solver on a caller's cube state and running it never changes
  the caller's state object: the solver's cube is a deep copy holding the same
  facelets, and after the constructor and any sequence of \<open>execute\<close> calls (the
  only way \<open>solve()\<close> changes anything) the caller's six arrays, and every other
  array that existed before, hold what they held.
\<close>

theorem solver_keeps_caller_state:
  "\<forall>f. callerState f < length h0 \<Longrightarrow>
   loadSolver (newHeapSolver callerState h0) = newSolver (loadState callerState h0) \<and>
   loadState callerState (heap (executeAll algorithms (newHeapSolver callerState h0))) =
     loadState callerState h0 \<and>
   (\<forall>a<length h0. heap (executeAll algorithms (newHeapSolver callerState h0)) ! a = h0 ! a)"
  by (simp add: loadSolver_newHeapSolver loadState_executeAll executeAll_old)

theorem solver_keeps_caller_state_witness:
  "(\<forall>f. faceIndex f < length (map (\<lambda>f. getFace f solvedState) allFaces)) \<and>
   loadState faceIndex
     (heap (executeAll [''F2'', ''y'', ''R U'']
        (newHeapSolver faceIndex (map (\<lambda>f. getFace f solvedState) allFaces)))) =
   solvedState"
proof -
  let ?h0 = "map (\<lambda>f. getFace f solvedState) allFaces"
  have a: "\<forall>f. faceIndex f < length ?h0"
    using faceIndex_less by (simp add: allFaces_def eval_nat_numeral)
  have b: "loadState faceIndex ?h0 = solvedState"
    by (simp add: loadState_def allFaces_def)
  from solver_keeps_caller_state [OF a, of "[''F2'', ''y'', ''R U'']"] a b
  show ?thesis by simp
qed

end
